theory Spec2Isabelle
  imports Complex_Main
begin

section \<open>Time values of the JavaScript runtime\<close>

text \<open>
  A \<^verbatim>\<open>Date\<close> is its time value: the milliseconds since 1970-01-01T00:00:00Z, an integer.
  The functions below are the ones ECMAScript defines under these names. The zone of the
  host is a parameter \<open>tza\<close> (ECMAScript's LocalTZA, in milliseconds, positive east of
  Greenwich); it is one fixed offset, so a run that crosses a daylight-saving change is
  outside this model. A calendar day is the number of days since 1970-01-01.
\<close>

definition msPerDay :: int where "msPerDay = 86400000"
definition msPerHour :: int where "msPerHour = 3600000"
definition msPerMinute :: int where "msPerMinute = 60000"
definition msPerSecond :: int where "msPerSecond = 1000"

definition Day :: "int \<Rightarrow> int" where
  "Day t = t div msPerDay"

definition HourFromTime :: "int \<Rightarrow> int" where
  "HourFromTime t = (t div msPerHour) mod 24"

definition MinFromTime :: "int \<Rightarrow> int" where
  "MinFromTime t = (t div msPerMinute) mod 60"

definition SecFromTime :: "int \<Rightarrow> int" where
  "SecFromTime t = (t div msPerSecond) mod 60"

definition msFromTime :: "int \<Rightarrow> int" where
  "msFromTime t = t mod msPerSecond"

definition MakeTime :: "int \<Rightarrow> int \<Rightarrow> int \<Rightarrow> int \<Rightarrow> int" where
  "MakeTime h m s ms = h * msPerHour + m * msPerMinute + s * msPerSecond + ms"

definition MakeDate :: "int \<Rightarrow> int \<Rightarrow> int" where
  "MakeDate d tm = d * msPerDay + tm"

definition LocalTime :: "int \<Rightarrow> int \<Rightarrow> int" where
  "LocalTime tza t = t + tza"

definition UTC :: "int \<Rightarrow> int \<Rightarrow> int" where
  "UTC tza t = t - tza"

definition getMinutes :: "int \<Rightarrow> int \<Rightarrow> int" where
  "getMinutes tza t = MinFromTime (LocalTime tza t)"

definition setMinutes :: "int \<Rightarrow> int \<Rightarrow> int \<Rightarrow> int" where
  "setMinutes tza t m =
     (let lt = LocalTime tza t
      in UTC tza (MakeDate (Day lt) (MakeTime (HourFromTime lt) m (SecFromTime lt) (msFromTime lt))))"

definition setHours :: "int \<Rightarrow> int \<Rightarrow> int \<Rightarrow> int \<Rightarrow> int \<Rightarrow> int \<Rightarrow> int" where
  "setHours tza t h m s ms = UTC tza (MakeDate (Day (LocalTime tza t)) (MakeTime h m s ms))"

text \<open>
  \<^verbatim>\<open>new Date("YYYY-MM-DD")\<close>: ECMAScript reads the date-only form as midnight UTC of
  that day, whatever the zone of the host.
\<close>

definition Date_of_day :: "int \<Rightarrow> int" where
  "Date_of_day d = d * msPerDay"

text \<open>
  \<^verbatim>\<open>getFullYear()\<close>, \<^verbatim>\<open>getMonth()\<close> and \<^verbatim>\<open>getDate()\<close> read the local time. The
  Gregorian calendar gives each day one (year, month, day of month), so the three agree
  for two instants exactly when both fall on the same local day.
\<close>

definition LocalDay :: "int \<Rightarrow> int \<Rightarrow> int" where
  "LocalDay tza t = Day (LocalTime tza t)"

text \<open>
  \<^verbatim>\<open>Math.round\<close> rounds to the nearest integer, a half towards plus infinity. Numbers
  are the reals they denote: the rounding error of the double product is not modelled.
\<close>

definition Math_round :: "real \<Rightarrow> int" where
  "Math_round x = \<lfloor>x + 1 / 2\<rfloor>"

text \<open>\<^verbatim>\<open>x || ''\<close> on a string that may be null or undefined.\<close>

definition or_empty :: "string option \<Rightarrow> string" where
  "or_empty x = (case x of None \<Rightarrow> [] | Some s \<Rightarrow> s)"

text \<open>
  \<^verbatim>\<open>trim()\<close> and \<^verbatim>\<open>toLowerCase()\<close> on the ASCII range: the white space is tab, line
  feed, vertical tab, form feed, carriage return and space, and the letters folded are A to
  Z. Bytes outside ASCII are left as they are.
\<close>

definition isWhiteSpace :: "char \<Rightarrow> bool" where
  "isWhiteSpace c \<longleftrightarrow> (of_char c :: nat) \<in> {9, 10, 11, 12, 13, 32}"

definition trim :: "string \<Rightarrow> string" where
  "trim s = rev (dropWhile isWhiteSpace (rev (dropWhile isWhiteSpace s)))"

definition toLowerChar :: "char \<Rightarrow> char" where
  "toLowerChar c =
     (let n = (of_char c :: nat) in if 65 \<le> n \<and> n \<le> 90 then char_of (n + 32) else c)"

definition toLowerCase :: "string \<Rightarrow> string" where
  "toLowerCase s = map toLowerChar s"

section \<open>The local store (src/db/storage.js)\<close>

text \<open>
  A timestamp column: the text is missing (null or empty), is text that \<^verbatim>\<open>new Date\<close>
  cannot read, or denotes an instant.
\<close>

datatype stamp = Missing | Unparsable | Instant int

text \<open>
  A row of \<^verbatim>\<open>time_entries\<close>. Identifiers are the integers whose decimal text the
  columns hold. \<^verbatim>\<open>date\<close> holds Harvest's \<^verbatim>\<open>spent_date\<close>, a \<^verbatim>\<open>YYYY-MM-DD\<close> text, kept
  here as its day number. The columns client, project, task and notes are only ever
  written through \<^verbatim>\<open>|| ''\<close>, so they are never null.
\<close>

record time_entry =
  te_id :: int
  te_harvest_id :: int
  te_kimai_id :: "int option"
  te_date :: int
  te_client :: string
  te_project :: string
  te_task :: string
  te_notes :: string
  te_hours :: "real option"
  te_started_time :: "string option"
  te_ended_time :: "string option"
  te_imported :: int
  te_created_at :: stamp

text \<open>A row of \<^verbatim>\<open>tasks\<close>.\<close>

record task =
  t_id :: int
  t_harvest_id :: int
  t_name :: "string option"
  t_is_active :: bool
  t_created_at :: "string option"
  t_updated_at :: "string option"
  t_kimai_project_id :: "int option"
  t_kimai_activity_id :: "int option"
  t_kimai_activity_name :: "string option"

text \<open>A row of \<^verbatim>\<open>tasks_kimai\<close>.\<close>

record kimai_task =
  tk_id :: int
  tk_kimai_project_id :: "int option"
  tk_kimai_activity_id :: "int option"
  tk_task_name :: "string option"
  tk_parent_title :: string
  tk_created_at :: string

record store =
  time_entries :: "time_entry list"
  tasks :: "task list"
  tasks_kimai :: "kimai_task list"

text \<open>
  The statements the code sends to the engine. Besides the constraint violations written
  out below, the engine may report an error for a statement (a full disk, a locked file):
  \<open>fails\<close> says for which.
\<close>

datatype stmt =
    SelectExisting
  | InsertEntry int
  | UpdateEntry int
  | SelectActivities
  | SelectTasks
  | UpdateTask int
  | SelectPending
  | MarkImported int
  | DeleteTasks
  | DeleteKimaiTasks
  | InsertTask int
  | FinalizeTasks
  | InsertActivity int
  | FinalizeActivities

datatype error = StorageError | NetworkError | TypeError

text \<open>An entry as Harvest's API gives it; client, project and task are \<^verbatim>\<open>entry.client?.name\<close> and so on.\<close>

record harvest_entry =
  he_id :: int
  he_spent_date :: int
  he_client :: "string option"
  he_project :: "string option"
  he_task :: "string option"
  he_notes :: "string option"
  he_hours :: "real option"
  he_started_time :: "string option"
  he_ended_time :: "string option"
  he_created_at :: stamp

record sync_counts =
  inserted :: nat
  updated :: nat
  unchanged :: nat

text \<open>
  What \<^verbatim>\<open>storeHarvestEntries\<close> resolves with (\<open>so_result\<close>), the two error counters it
  writes to the log, and the store it leaves.
\<close>

record store_outcome =
  so_result :: sync_counts
  so_insertErrorCount :: nat
  so_updateErrorCount :: nat
  so_store :: store

definition selectExisting :: "int list \<Rightarrow> time_entry list \<Rightarrow> time_entry list" where
  "selectExisting harvestIds rows = filter (\<lambda>r. te_harvest_id r \<in> set harvestIds) rows"

definition existingEntriesMap :: "time_entry list \<Rightarrow> (int \<rightharpoonup> time_entry)" where
  "existingEntriesMap existingEntries =
     fold (\<lambda>entry m. m(te_harvest_id entry \<mapsto> entry)) existingEntries Map.empty"

definition hasChanged :: "time_entry \<Rightarrow> harvest_entry \<Rightarrow> bool" where
  "hasChanged existing entry \<longleftrightarrow>
     te_date existing \<noteq> he_spent_date entry \<or>
     te_client existing \<noteq> or_empty (he_client entry) \<or>
     te_project existing \<noteq> or_empty (he_project entry) \<or>
     te_task existing \<noteq> or_empty (he_task entry) \<or>
     te_notes existing \<noteq> or_empty (he_notes entry) \<or>
     te_hours existing \<noteq> he_hours entry \<or>
     te_started_time existing \<noteq> he_started_time entry \<or>
     te_ended_time existing \<noteq> he_ended_time entry"

text \<open>The rowid SQLite gives a new row: one more than the largest in the table.\<close>

definition next_rowid :: "time_entry list \<Rightarrow> int" where
  "next_rowid rows = fold max (map te_id rows) 0 + 1"

text \<open>
  The INSERT of one new entry: \<^verbatim>\<open>harvest_id\<close> is UNIQUE, \<^verbatim>\<open>imported\<close> takes its default 0
  and \<^verbatim>\<open>kimai_id\<close> stays null. \<open>now\<close> is the clock, read when the entry has no
  \<^verbatim>\<open>created_at\<close>.
\<close>

definition insertEntry ::
  "(stmt \<Rightarrow> bool) \<Rightarrow> int \<Rightarrow> harvest_entry \<Rightarrow> time_entry list \<Rightarrow> time_entry list option" where
  "insertEntry fails now entry rows =
     (if fails (InsertEntry (he_id entry)) \<or> he_id entry \<in> set (map te_harvest_id rows) then None
      else Some (rows @
        [\<lparr>te_id = next_rowid rows,
          te_harvest_id = he_id entry,
          te_kimai_id = None,
          te_date = he_spent_date entry,
          te_client = or_empty (he_client entry),
          te_project = or_empty (he_project entry),
          te_task = or_empty (he_task entry),
          te_notes = or_empty (he_notes entry),
          te_hours = he_hours entry,
          te_started_time = he_started_time entry,
          te_ended_time = he_ended_time entry,
          te_imported = 0,
          te_created_at = (case he_created_at entry of Missing \<Rightarrow> Instant now | c \<Rightarrow> c)\<rparr>]))"

definition insertStep ::
  "(stmt \<Rightarrow> bool) \<Rightarrow> int \<Rightarrow> harvest_entry \<Rightarrow> time_entry list \<times> nat \<times> nat \<Rightarrow> time_entry list \<times> nat \<times> nat" where
  "insertStep fails now entry = (\<lambda>(rows, insertedCount, insertErrorCount).
     case insertEntry fails now entry rows of
       None \<Rightarrow> (rows, insertedCount, insertErrorCount + 1)
     | Some rows' \<Rightarrow> (rows', insertedCount + 1, insertErrorCount))"

text \<open>The UPDATE of one changed entry, on the row of its \<^verbatim>\<open>harvest_id\<close>.\<close>

definition updateRow :: "harvest_entry \<Rightarrow> time_entry \<Rightarrow> time_entry" where
  "updateRow entry r =
     r\<lparr>te_date := he_spent_date entry,
       te_client := or_empty (he_client entry),
       te_project := or_empty (he_project entry),
       te_task := or_empty (he_task entry),
       te_notes := or_empty (he_notes entry),
       te_hours := he_hours entry,
       te_started_time := he_started_time entry,
       te_ended_time := he_ended_time entry\<rparr>"

definition updateEntry ::
  "(stmt \<Rightarrow> bool) \<Rightarrow> harvest_entry \<Rightarrow> time_entry list \<Rightarrow> time_entry list option" where
  "updateEntry fails entry rows =
     (if fails (UpdateEntry (he_id entry)) then None
      else Some (map (\<lambda>r. if te_harvest_id r = he_id entry then updateRow entry r else r) rows))"

definition updateStep ::
  "(stmt \<Rightarrow> bool) \<Rightarrow> harvest_entry \<Rightarrow> time_entry list \<times> nat \<times> nat \<Rightarrow> time_entry list \<times> nat \<times> nat" where
  "updateStep fails entry = (\<lambda>(rows, updatedCount, updateErrorCount).
     case updateEntry fails entry rows of
       None \<Rightarrow> (rows, updatedCount, updateErrorCount + 1)
     | Some rows' \<Rightarrow> (rows', updatedCount + 1, updateErrorCount))"

definition newEntries :: "(int \<rightharpoonup> time_entry) \<Rightarrow> harvest_entry list \<Rightarrow> harvest_entry list" where
  "newEntries m entries = filter (\<lambda>e. m (he_id e) = None) entries"

definition updatedEntries :: "(int \<rightharpoonup> time_entry) \<Rightarrow> harvest_entry list \<Rightarrow> harvest_entry list" where
  "updatedEntries m entries =
     filter (\<lambda>e. case m (he_id e) of None \<Rightarrow> False | Some existing \<Rightarrow> hasChanged existing e) entries"

definition unchangedEntries :: "(int \<rightharpoonup> time_entry) \<Rightarrow> harvest_entry list \<Rightarrow> harvest_entry list" where
  "unchangedEntries m entries =
     filter (\<lambda>e. case m (he_id e) of None \<Rightarrow> False | Some existing \<Rightarrow> \<not> hasChanged existing e) entries"

text \<open>
  \<^verbatim>\<open>storeHarvestEntries\<close>. The statements run inside \<^verbatim>\<open>db.serialize\<close>, in the order
  they are issued: the inserts, then the updates; the promise resolves in the callback of
  the last \<^verbatim>\<open>finalize\<close>, when every counter has its final value.
\<close>

definition storeHarvestEntries ::
  "(stmt \<Rightarrow> bool) \<Rightarrow> int \<Rightarrow> harvest_entry list \<Rightarrow> store \<Rightarrow> error + store_outcome" where
  "storeHarvestEntries fails now entries st =
     (if entries = [] then
        Inr \<lparr>so_result = \<lparr>inserted = 0, updated = 0, unchanged = 0\<rparr>,
             so_insertErrorCount = 0, so_updateErrorCount = 0, so_store = st\<rparr>
      else if fails SelectExisting then Inl StorageError
      else
        let harvestIds = map he_id entries;
            m = existingEntriesMap (selectExisting harvestIds (time_entries st));
            new = newEntries m entries;
            upd = updatedEntries m entries;
            unch = unchangedEntries m entries;
            (rows1, insertedCount, insertErrorCount) =
               fold (insertStep fails now) new (time_entries st, 0, 0);
            (rows2, updatedCount, updateErrorCount) =
               fold (updateStep fails) upd (rows1, 0, 0)
        in Inr \<lparr>so_result =
                  (if upd \<noteq> [] then
                     \<lparr>inserted = insertedCount, updated = updatedCount, unchanged = length unch\<rparr>
                   else if new \<noteq> [] then
                     \<lparr>inserted = insertedCount, updated = 0, unchanged = length unch\<rparr>
                   else \<lparr>inserted = 0, updated = 0, unchanged = length unch\<rparr>),
                so_insertErrorCount = insertErrorCount,
                so_updateErrorCount = updateErrorCount,
                so_store = st\<lparr>time_entries := rows2\<rparr>\<rparr>)"

subsection \<open>The two catalogs\<close>


record kimai_activity =
  ka_id :: "int option"
  ka_name :: string
  ka_parentTitle :: "string option"
  ka_project :: "int option"






text \<open>
  The display name of an activity: \<^verbatim>\<open>parentTitle ? `${parentTitle}: ${name}` : name\<close>.
\<close>

definition displayName :: "kimai_activity \<Rightarrow> string" where
  "displayName activity =
     (case ka_parentTitle activity of
        None \<Rightarrow> ka_name activity
      | Some parentTitle \<Rightarrow>
          if parentTitle = [] then ka_name activity
          else parentTitle @ '': '' @ ka_name activity)"




subsection \<open>Matching Harvest tasks with Kimai activities\<close>

text \<open>
  The predicate of \<^verbatim>\<open>harvestTasks.find\<close>, run over the tasks in order. Calling
  \<^verbatim>\<open>trim\<close> on a null name throws a TypeError.
\<close>

fun find_task :: "string option \<Rightarrow> task list \<Rightarrow> error + task option" where
  "find_task task_name [] = Inr None"
| "find_task task_name (t # ts) =
     (case t_name t of
        None \<Rightarrow> Inl TypeError
      | Some name \<Rightarrow>
         (case task_name of
            None \<Rightarrow> Inl TypeError
          | Some aname \<Rightarrow>
              if toLowerCase (trim name) = toLowerCase (trim aname) then Inr (Some t)
              else find_task task_name ts))"

text \<open>The \<^verbatim>\<open>forEach\<close> over the activities: the updates it queues, in order.\<close>

fun findMatches :: "task list \<Rightarrow> kimai_task list \<Rightarrow> error + (kimai_task \<times> task) list" where
  "findMatches harvestTasks [] = Inr []"
| "findMatches harvestTasks (activity # rest) =
     (case find_task (tk_task_name activity) harvestTasks of
        Inl e \<Rightarrow> Inl e
      | Inr None \<Rightarrow> findMatches harvestTasks rest
      | Inr (Some matchingTask) \<Rightarrow>
         (case findMatches harvestTasks rest of
            Inl e \<Rightarrow> Inl e
          | Inr ps \<Rightarrow> Inr ((activity, matchingTask) # ps)))"

definition setMapping :: "kimai_task \<Rightarrow> task \<Rightarrow> task" where
  "setMapping activity r =
     r\<lparr>t_kimai_project_id := tk_kimai_project_id activity,
       t_kimai_activity_id := tk_kimai_activity_id activity,
       t_kimai_activity_name := tk_task_name activity\<rparr>"

definition updateTask :: "kimai_task \<Rightarrow> task \<Rightarrow> task list \<Rightarrow> task list" where
  "updateTask activity matchingTask rows =
     map (\<lambda>r. if t_id r = t_id matchingTask then setMapping activity r else r) rows"

record match_counts =
  matched :: int
  unmatched :: int

text \<open>
  The queued updates, run in the order they were queued. One that fails rejects the
  promise of the whole step; each that succeeds counts one match up and one unmatched down.
\<close>

fun runUpdates ::
  "(stmt \<Rightarrow> bool) \<Rightarrow> (kimai_task \<times> task) list \<Rightarrow> task list \<times> match_counts \<Rightarrow> error + task list \<times> match_counts" where
  "runUpdates fails [] acc = Inr acc"
| "runUpdates fails ((activity, matchingTask) # ps) (rows, c) =
     (if fails (UpdateTask (t_id matchingTask)) then Inl StorageError
      else runUpdates fails ps
             (updateTask activity matchingTask rows,
              \<lparr>matched = matched c + 1, unmatched = unmatched c - 1\<rparr>))"

definition matchTasksWithActivities ::
  "(stmt \<Rightarrow> bool) \<Rightarrow> store \<Rightarrow> error + match_counts \<times> store" where
  "matchTasksWithActivities fails st =
     (if fails SelectActivities then Inl StorageError
      else
        let kimaiActivities = tasks_kimai st in
        if kimaiActivities = [] then Inr (\<lparr>matched = 0, unmatched = 0\<rparr>, st)
        else if fails SelectTasks then Inl StorageError
        else
          let harvestTasks = tasks st in
          if harvestTasks = [] then Inr (\<lparr>matched = 0, unmatched = 0\<rparr>, st)
          else
            (case findMatches harvestTasks kimaiActivities of
               Inl e \<Rightarrow> Inl e
             | Inr ps \<Rightarrow>
                (case runUpdates fails ps
                        (harvestTasks, \<lparr>matched = 0, unmatched = int (length harvestTasks)\<rparr>) of
                   Inl e \<Rightarrow> Inl e
                 | Inr (rows, c) \<Rightarrow> Inr (c, st\<lparr>tasks := rows\<rparr>))))"

subsection \<open>Pending entries and the imported mark\<close>

text \<open>
  A row of \<^verbatim>\<open>getAllPendingEntries\<close>: the entry and the mapping of a task joined to it.
\<close>

record pending_entry =
  pe_row :: time_entry
  pe_kimai_project_id :: "int option"
  pe_kimai_activity_id :: "int option"

text \<open>
  The LEFT JOIN on \<^verbatim>\<open>te.task = t.name\<close>: one row for each task of that name, one row
  with null mapping when there is none. Rows come in the order of the tables.
\<close>

definition joinTasks :: "task list \<Rightarrow> time_entry \<Rightarrow> pending_entry list" where
  "joinTasks ts te =
     (let ms = filter (\<lambda>t. t_name t = Some (te_task te)) ts
      in if ms = [] then
           [\<lparr>pe_row = te, pe_kimai_project_id = None, pe_kimai_activity_id = None\<rparr>]
         else map (\<lambda>t. \<lparr>pe_row = te, pe_kimai_project_id = t_kimai_project_id t,
                         pe_kimai_activity_id = t_kimai_activity_id t\<rparr>) ms)"

definition getAllPendingEntries :: "(stmt \<Rightarrow> bool) \<Rightarrow> store \<Rightarrow> error + pending_entry list" where
  "getAllPendingEntries fails st =
     (if fails SelectPending then Inl StorageError
      else Inr (concat (map (joinTasks (tasks st))
                  (filter (\<lambda>te. te_imported te = 0) (time_entries st)))))"

definition markAsImported :: "(stmt \<Rightarrow> bool) \<Rightarrow> int \<Rightarrow> int \<Rightarrow> store \<Rightarrow> error + store" where
  "markAsImported fails harvestId kimaiId st =
     (if fails (MarkImported harvestId) then Inl StorageError
      else Inr (st\<lparr>time_entries :=
             map (\<lambda>r. if te_harvest_id r = harvestId
                       then r\<lparr>te_imported := 1, te_kimai_id := Some kimaiId\<rparr> else r)
                 (time_entries st)\<rparr>))"

section \<open>The importer (src/kimai/import.js)\<close>

record kimai_entry =
  k_begin :: int
  k_end :: int
  k_description :: string
  k_project :: "int option"
  k_activity :: "int option"

definition sameDate :: "int \<Rightarrow> int \<Rightarrow> int \<Rightarrow> bool" where
  "sameDate tza createdAtDate dateObj \<longleftrightarrow> LocalDay tza createdAtDate = LocalDay tza dateObj"

text \<open>\<^verbatim>\<open>Math.round(entry.hours * 60)\<close>; a null \<^verbatim>\<open>hours\<close> multiplies to 0.\<close>

definition roundedMinutes :: "real option \<Rightarrow> int" where
  "roundedMinutes h = (case h of None \<Rightarrow> 0 | Some x \<Rightarrow> Math_round (x * 60))"

text \<open>
  \<^verbatim>\<open>transformEntry(entry, dateEndTimeMap)\<close>: the entry for Kimai and the map as the call
  leaves it. \<open>sequential\<close> is the branch the source writes twice: the end time the map
  holds for the date, or else 9:00 set on \<^verbatim>\<open>new Date(entryDate)\<close>. The instants stand for
  their \<^verbatim>\<open>toISOString()\<close> text.
\<close>

definition transformEntry ::
  "int \<Rightarrow> pending_entry \<Rightarrow> (int \<rightharpoonup> int) \<Rightarrow> kimai_entry \<times> (int \<rightharpoonup> int)" where
  "transformEntry tza entry dateEndTimeMap =
     (let entryDate = te_date (pe_row entry);
          sequential =
            (case dateEndTimeMap entryDate of
               Some t \<Rightarrow> t
             | None \<Rightarrow> setHours tza (Date_of_day entryDate) 9 0 0 0);
          beginTime =
            (case te_created_at (pe_row entry) of
               Instant createdAtDate \<Rightarrow>
                 if sameDate tza createdAtDate (Date_of_day entryDate) then createdAtDate
                 else sequential
             | Unparsable \<Rightarrow> sequential
             | Missing \<Rightarrow> sequential);
          endTime = setMinutes tza beginTime
                      (getMinutes tza beginTime + roundedMinutes (te_hours (pe_row entry)))
      in (\<lparr>k_begin = beginTime, k_end = endTime,
            k_description = te_notes (pe_row entry),
            k_project = pe_kimai_project_id entry,
            k_activity = pe_kimai_activity_id entry\<rparr>,
          dateEndTimeMap(entryDate \<mapsto> endTime)))"

text \<open>
  The state of the loop of \<^verbatim>\<open>importTimeEntries\<close>: the two counters, the map of end
  times, the store, and the calls of \<^verbatim>\<open>createTimesheet\<close> made so far, each with the
  entry it was made for.
\<close>

record import_state =
  imported :: nat
  failed :: nat
  dateEndTimeMap :: "int \<rightharpoonup> int"
  requests :: "(pending_entry \<times> kimai_entry) list"
  is_store :: store

text \<open>
  One turn of the loop. \<open>api n k\<close> is what Kimai answers to the \<open>n\<close>-th call of
  \<^verbatim>\<open>createTimesheet\<close>, made with \<open>k\<close>: an error or the id of the new timesheet.
\<close>

definition importStep ::
  "(stmt \<Rightarrow> bool) \<Rightarrow> (nat \<Rightarrow> kimai_entry \<Rightarrow> error + int) \<Rightarrow> int \<Rightarrow> pending_entry \<Rightarrow> import_state \<Rightarrow> import_state" where
  "importStep fails api tza entry s =
     (if pe_kimai_project_id entry = None \<or> pe_kimai_activity_id entry = None then s
      else
        let (kimaiEntry, m) = transformEntry tza entry (dateEndTimeMap s);
            s1 = s\<lparr>dateEndTimeMap := m,
                   requests := requests s @ [(entry, kimaiEntry)]\<rparr>
        in case api (length (requests s)) kimaiEntry of
             Inl e \<Rightarrow> s1\<lparr>failed := failed s1 + 1\<rparr>
           | Inr kimaiId \<Rightarrow>
              (case markAsImported fails (te_harvest_id (pe_row entry)) kimaiId (is_store s1) of
                 Inl e \<Rightarrow> s1\<lparr>failed := failed s1 + 1\<rparr>
               | Inr st' \<Rightarrow> s1\<lparr>is_store := st', imported := imported s1 + 1\<rparr>))"

definition importLoop ::
  "(stmt \<Rightarrow> bool) \<Rightarrow> (nat \<Rightarrow> kimai_entry \<Rightarrow> error + int) \<Rightarrow> int \<Rightarrow> pending_entry list \<Rightarrow> import_state \<Rightarrow> import_state" where
  "importLoop fails api tza entries s = fold (importStep fails api tza) entries s"

definition initialState :: "store \<Rightarrow> import_state" where
  "initialState st =
     \<lparr>imported = 0, failed = 0, dateEndTimeMap = Map.empty, requests = [], is_store = st\<rparr>"

text \<open>
  \<^verbatim>\<open>importTimeEntries\<close>: the pending entries, sorted by date (the sort of the runtime
  is stable), then the loop. The function returns the counter \<open>imported\<close> of the state.
\<close>

definition importTimeEntries ::
  "(stmt \<Rightarrow> bool) \<Rightarrow> (nat \<Rightarrow> kimai_entry \<Rightarrow> error + int) \<Rightarrow> int \<Rightarrow> store \<Rightarrow> error + import_state" where
  "importTimeEntries fails api tza st =
     (case getAllPendingEntries fails st of
        Inl e \<Rightarrow> Inl e
      | Inr entries \<Rightarrow>
          if entries = [] then Inr (initialState st)
          else Inr (importLoop fails api tza
                      (sort_key (\<lambda>e. te_date (pe_row e)) entries) (initialState st)))"

section \<open>Notions the properties are stated with\<close>

text \<open>
  The begin time of an entry that does not take its \<^verbatim>\<open>created_at\<close>: the end time the map
  holds for the day \<open>d\<close>, or else 09:00:00.000 local time on the day \<open>d\<close>.
\<close>

definition sequentialBegin :: "int \<Rightarrow> int \<Rightarrow> (int \<rightharpoonup> int) \<Rightarrow> int" where
  "sequentialBegin tza d m =
     (case m d of Some t \<Rightarrow> t | None \<Rightarrow> UTC tza (MakeDate d (MakeTime 9 0 0 0)))"

text \<open>
  The test \<^verbatim>\<open>transformEntry\<close> makes before it takes \<^verbatim>\<open>created_at\<close> as the begin time,
  and what the test is meant to say: the creation timestamp falls, in local time, on the
  entry's own date.
\<close>

definition usesCreatedAt :: "int \<Rightarrow> pending_entry \<Rightarrow> bool" where
  "usesCreatedAt tza e \<longleftrightarrow>
     (case te_created_at (pe_row e) of
        Instant c \<Rightarrow> sameDate tza c (Date_of_day (te_date (pe_row e)))
      | Unparsable \<Rightarrow> False
      | Missing \<Rightarrow> False)"

definition createdOnDate :: "int \<Rightarrow> pending_entry \<Rightarrow> bool" where
  "createdOnDate tza e \<longleftrightarrow>
     (case te_created_at (pe_row e) of
        Instant c \<Rightarrow> LocalDay tza c = te_date (pe_row e)
      | Unparsable \<Rightarrow> False
      | Missing \<Rightarrow> False)"

text \<open>
  The entries for Kimai that a list of mapped entries gives when \<^verbatim>\<open>transformEntry\<close> is
  called on each in turn, and the map of end times after the last.
\<close>

fun derive :: "int \<Rightarrow> pending_entry list \<Rightarrow> (int \<rightharpoonup> int) \<Rightarrow> (pending_entry \<times> kimai_entry) list" where
  "derive tza [] m = []"
| "derive tza (e # es) m = (e, fst (transformEntry tza e m)) # derive tza es (snd (transformEntry tza e m))"

fun deriveMap :: "int \<Rightarrow> pending_entry list \<Rightarrow> (int \<rightharpoonup> int) \<Rightarrow> (int \<rightharpoonup> int)" where
  "deriveMap tza [] m = m"
| "deriveMap tza (e # es) m = deriveMap tza es (snd (transformEntry tza e m))"

text \<open>
  The columns of a \<^verbatim>\<open>time_entries\<close> row that reconciliation does not compare: two rows
  agree on them.
\<close>

definition untouched :: "time_entry \<Rightarrow> time_entry \<Rightarrow> bool" where
  "untouched r r' \<longleftrightarrow>
     te_id r' = te_id r \<and> te_harvest_id r' = te_harvest_id r \<and> te_kimai_id r' = te_kimai_id r \<and>
     te_imported r' = te_imported r \<and> te_created_at r' = te_created_at r"


text \<open>
  A pending entry has its mapping when both ids are set: the guard of the import loop.
\<close>

definition mapped :: "pending_entry \<Rightarrow> bool" where
  "mapped e \<longleftrightarrow> pe_kimai_project_id e \<noteq> None \<and> pe_kimai_activity_id e \<noteq> None"

text \<open>
  What the UPDATE statements of a batch may have done to a row, and what they have done
  to it when none failed.
\<close>

definition upd_rel :: "harvest_entry list \<Rightarrow> time_entry \<Rightarrow> time_entry \<Rightarrow> bool" where
  "upd_rel es r r' \<longleftrightarrow> r' = r \<or> (\<exists>e\<in>set es. he_id e = te_harvest_id r \<and> r' = updateRow e r)"

definition applied :: "harvest_entry list \<Rightarrow> time_entry \<Rightarrow> time_entry" where
  "applied es r = (case find (\<lambda>e. he_id e = te_harvest_id r) es of None \<Rightarrow> r | Some e \<Rightarrow> updateRow e r)"

text \<open>
  A row as a run of the importer leaves it: the same row unless its \<^verbatim>\<open>harvest_id\<close> is
  one of \<open>H\<close>.
\<close>

definition kept :: "int set \<Rightarrow> time_entry \<Rightarrow> time_entry \<Rightarrow> bool" where
  "kept H r r' \<longleftrightarrow> te_harvest_id r' = te_harvest_id r \<and> (te_harvest_id r \<notin> H \<longrightarrow> r' = r)"


definition selects :: "task list \<Rightarrow> kimai_task \<Rightarrow> task \<Rightarrow> bool" where
  "selects ts a t \<longleftrightarrow> find_task (tk_task_name a) ts = Inr (Some t)"

definition selectedTasks :: "task list \<Rightarrow> kimai_task list \<Rightarrow> task list" where
  "selectedTasks ts acts =
     concat (map (\<lambda>a. case find_task (tk_task_name a) ts of Inr (Some t) \<Rightarrow> [t] | _ \<Rightarrow> []) acts)"

definition mappingOf :: "task list \<Rightarrow> kimai_task list \<Rightarrow> task \<Rightarrow> task" where
  "mappingOf ts acts r =
     (case find (\<lambda>a. selects ts a r) (rev acts) of None \<Rightarrow> r | Some a \<Rightarrow> setMapping a r)"

section \<open>Concrete inputs\<close>

text \<open>
  An entry of 2025-03-11 (day 20158), created at 2025-03-11T15:00:00Z, which is 10:00 of
  the same day in a zone five hours west of Greenwich.
\<close>

definition west_row :: time_entry where
  "west_row =
     \<lparr>te_id = 1, te_harvest_id = 101, te_kimai_id = None, te_date = 20158,
      te_client = ''Acme'', te_project = ''Site'', te_task = ''Dev'', te_notes = ''fix'',
      te_hours = Some 2, te_started_time = None, te_ended_time = None, te_imported = 0,
      te_created_at = Instant 1741705200000\<rparr>"

definition west_entry :: pending_entry where
  "west_entry = \<lparr>pe_row = west_row, pe_kimai_project_id = Some 7, pe_kimai_activity_id = Some 9\<rparr>"

text \<open>
  An engine that never fails, a Kimai that answers every call with a fresh id, and one
  that refuses every call.
\<close>

definition no_fault :: "stmt \<Rightarrow> bool" where
  "no_fault s = False"

definition api_up :: "nat \<Rightarrow> kimai_entry \<Rightarrow> error + int" where
  "api_up n k = Inr (9100 + int n)"

definition api_down :: "nat \<Rightarrow> kimai_entry \<Rightarrow> error + int" where
  "api_down n k = Inl NetworkError"

text \<open>
  Rows of 2025-03-10 (day 20157) and 2025-03-11; the second is already imported.
\<close>

definition row101 :: time_entry where
  "row101 =
     \<lparr>te_id = 1, te_harvest_id = 101, te_kimai_id = None, te_date = 20157,
      te_client = ''Acme'', te_project = ''Site'', te_task = ''Dev'', te_notes = ''fix'',
      te_hours = Some (3 / 2), te_started_time = None, te_ended_time = None, te_imported = 0,
      te_created_at = Instant 1741600800000\<rparr>"

definition row102 :: time_entry where
  "row102 =
     \<lparr>te_id = 2, te_harvest_id = 102, te_kimai_id = Some 9001, te_date = 20157,
      te_client = ''Acme'', te_project = ''Site'', te_task = ''Dev'', te_notes = ''draft'',
      te_hours = Some 1, te_started_time = None, te_ended_time = None, te_imported = 1,
      te_created_at = Instant 1741597200000\<rparr>"

definition row103 :: time_entry where
  "row103 =
     \<lparr>te_id = 3, te_harvest_id = 103, te_kimai_id = None, te_date = 20158,
      te_client = [], te_project = [], te_task = [], te_notes = [],
      te_hours = Some (1 / 4), te_started_time = None, te_ended_time = None, te_imported = 0,
      te_created_at = Instant 5\<rparr>"

text \<open>
  Three tasks, two of which read \<^verbatim>\<open>design review\<close> once trimmed and folded, and three
  activities, one of which no task matches.
\<close>

definition task_dev :: task where
  "task_dev =
     \<lparr>t_id = 1, t_harvest_id = 501, t_name = Some ''Dev'', t_is_active = True,
      t_created_at = None, t_updated_at = None,
      t_kimai_project_id = None, t_kimai_activity_id = None, t_kimai_activity_name = None\<rparr>"

definition task_review :: task where
  "task_review =
     \<lparr>t_id = 2, t_harvest_id = 502, t_name = Some '' Design Review '', t_is_active = True,
      t_created_at = None, t_updated_at = None,
      t_kimai_project_id = None, t_kimai_activity_id = None, t_kimai_activity_name = None\<rparr>"

definition task_review2 :: task where
  "task_review2 =
     \<lparr>t_id = 3, t_harvest_id = 503, t_name = Some ''DESIGN REVIEW'', t_is_active = False,
      t_created_at = None, t_updated_at = None,
      t_kimai_project_id = None, t_kimai_activity_id = None, t_kimai_activity_name = None\<rparr>"

definition act_review :: kimai_task where
  "act_review =
     \<lparr>tk_id = 1, tk_kimai_project_id = Some 7, tk_kimai_activity_id = Some 12,
      tk_task_name = Some ''design review'', tk_parent_title = [], tk_created_at = []\<rparr>"

definition act_other :: kimai_task where
  "act_other =
     \<lparr>tk_id = 2, tk_kimai_project_id = None, tk_kimai_activity_id = Some 15,
      tk_task_name = Some ''Website: Review'', tk_parent_title = ''Website'', tk_created_at = []\<rparr>"

definition act_dev :: kimai_task where
  "act_dev =
     \<lparr>tk_id = 3, tk_kimai_project_id = Some 7, tk_kimai_activity_id = Some 9,
      tk_task_name = Some ''dev'', tk_parent_title = [], tk_created_at = []\<rparr>"



text \<open>
The catalogs before the matching step, after it, and with no activity at all.
\<close>

definition store_fresh :: store where
  "store_fresh =
     \<lparr>time_entries = [row101, row102],
      tasks = [task_dev, task_review, task_review2],
      tasks_kimai = [act_review, act_other, act_dev]\<rparr>"

definition store0 :: store where
  "store0 =
     \<lparr>time_entries = [row101, row102],
      tasks = [setMapping act_dev task_dev, setMapping act_review task_review, task_review2],
      tasks_kimai = [act_review, act_other, act_dev]\<rparr>"

definition store_no_activities :: store where
  "store_no_activities = store_fresh\<lparr>tasks_kimai := []\<rparr>"

definition entry101 :: harvest_entry where
  "entry101 =
     \<lparr>he_id = 101, he_spent_date = 20157, he_client = Some ''Acme'', he_project = Some ''Site'',
      he_task = Some ''Dev'', he_notes = Some ''fix'', he_hours = Some (3 / 2),
      he_started_time = None, he_ended_time = None, he_created_at = Instant 1741600800000\<rparr>"

definition entry102 :: harvest_entry where
  "entry102 =
     \<lparr>he_id = 102, he_spent_date = 20157, he_client = Some ''Acme'', he_project = Some ''Site'',
      he_task = Some ''Dev'', he_notes = Some ''final'', he_hours = Some 2,
      he_started_time = None, he_ended_time = None, he_created_at = Instant 1741597200000\<rparr>"

definition entry103 :: harvest_entry where
  "entry103 =
     \<lparr>he_id = 103, he_spent_date = 20158, he_client = None, he_project = None,
      he_task = None, he_notes = None, he_hours = Some (1 / 4),
      he_started_time = None, he_ended_time = None, he_created_at = Missing\<rparr>"

text \<open>
  A batch with an unchanged entry, a changed one, a new one, and the new one once more,
  whose insert the UNIQUE constraint refuses; the same batch without the repetition; the
  store both leave, and what the two runs return.
\<close>

definition batch0 :: "harvest_entry list" where
  "batch0 = [entry101, entry102, entry103, entry103]"


definition store1 :: store where
  "store1 = store0\<lparr>time_entries := [row101, updateRow entry102 row102, row103]\<rparr>"

definition outcome0 :: store_outcome where
  "outcome0 =
     \<lparr>so_result = \<lparr>inserted = 1, updated = 1, unchanged = 1\<rparr>,
      so_insertErrorCount = 1, so_updateErrorCount = 0, so_store = store1\<rparr>"


text \<open>
  Pending rows of one day for the importer: 201 was created the day after its date, 202
  and 203 have no creation timestamp, 203 has a task that no catalog row names; 204 is of
  the next day. 301 and 302 are of one day and were both created on it, an hour apart.
\<close>

definition row201 :: time_entry where
  "row201 =
     \<lparr>te_id = 1, te_harvest_id = 201, te_kimai_id = None, te_date = 20157,
      te_client = ''Acme'', te_project = ''Site'', te_task = ''Dev'', te_notes = ''plan'',
      te_hours = Some 2, te_started_time = None, te_ended_time = None, te_imported = 0,
      te_created_at = Instant 1741680000000\<rparr>"

definition row202 :: time_entry where
  "row202 =
     \<lparr>te_id = 2, te_harvest_id = 202, te_kimai_id = None, te_date = 20157,
      te_client = ''Acme'', te_project = ''Site'', te_task = ''Dev'', te_notes = ''build'',
      te_hours = Some (1 / 2), te_started_time = None, te_ended_time = None, te_imported = 0,
      te_created_at = Missing\<rparr>"

definition row203 :: time_entry where
  "row203 =
     \<lparr>te_id = 3, te_harvest_id = 203, te_kimai_id = None, te_date = 20157,
      te_client = ''Acme'', te_project = ''Site'', te_task = ''Misc'', te_notes = [],
      te_hours = Some 1, te_started_time = None, te_ended_time = None, te_imported = 0,
      te_created_at = Missing\<rparr>"

definition row204 :: time_entry where
  "row204 =
     \<lparr>te_id = 4, te_harvest_id = 204, te_kimai_id = None, te_date = 20158,
      te_client = ''Acme'', te_project = ''Site'', te_task = ''Dev'', te_notes = ''test'',
      te_hours = Some 1, te_started_time = None, te_ended_time = None, te_imported = 0,
      te_created_at = Unparsable\<rparr>"

definition row301 :: time_entry where
  "row301 =
     \<lparr>te_id = 1, te_harvest_id = 301, te_kimai_id = None, te_date = 20157,
      te_client = ''Acme'', te_project = ''Site'', te_task = ''Dev'', te_notes = ''call'',
      te_hours = Some 2, te_started_time = None, te_ended_time = None, te_imported = 0,
      te_created_at = Instant 1741600800000\<rparr>"

definition row302 :: time_entry where
  "row302 =
     \<lparr>te_id = 2, te_harvest_id = 302, te_kimai_id = None, te_date = 20157,
      te_client = ''Acme'', te_project = ''Site'', te_task = ''Dev'', te_notes = ''notes'',
      te_hours = Some 1, te_started_time = None, te_ended_time = None, te_imported = 0,
      te_created_at = Instant 1741604400000\<rparr>"

definition store_chain :: store where
  "store_chain = store0\<lparr>time_entries := [row204, row201, row202, row203]\<rparr>"

definition store_overlap :: store where
  "store_overlap = store0\<lparr>time_entries := [row301, row302]\<rparr>"

definition pending :: "time_entry \<Rightarrow> pending_entry" where
  "pending r = \<lparr>pe_row = r, pe_kimai_project_id = Some 7, pe_kimai_activity_id = Some 9\<rparr>"

definition unmapped :: "time_entry \<Rightarrow> pending_entry" where
  "unmapped r = \<lparr>pe_row = r, pe_kimai_project_id = None, pe_kimai_activity_id = None\<rparr>"

definition kimai :: "time_entry \<Rightarrow> int \<Rightarrow> int \<Rightarrow> kimai_entry" where
  "kimai r b e =
     \<lparr>k_begin = b, k_end = e, k_description = te_notes r, k_project = Some 7, k_activity = Some 9\<rparr>"

definition k201 :: kimai_entry where "k201 = kimai row201 1741597200000 1741604400000"

definition k202 :: kimai_entry where "k202 = kimai row202 1741604400000 1741606200000"

definition k204 :: kimai_entry where "k204 = kimai row204 1741683600000 1741687200000"

definition k301 :: kimai_entry where "k301 = kimai row301 1741600800000 1741608000000"

definition k302 :: kimai_entry where "k302 = kimai row302 1741604400000 1741608000000"

section \<open>Time arithmetic\<close>

lemma time_decomposition:
  "MakeDate (Day t) (MakeTime (HourFromTime t) (MinFromTime t) (SecFromTime t) (msFromTime t)) = t"
proof -
  define a where "a = t div 1000"
  define b where "b = a div 60"
  define c where "c = b div 60"
  have m: "t div msPerMinute = b"
    using zdiv_zmult2_eq [of 60 t 1000] by (simp add: msPerMinute_def a_def b_def)
  have h: "t div msPerHour = c"
    using zdiv_zmult2_eq [of 60 t 60000] m by (simp add: msPerHour_def msPerMinute_def c_def)
  have d: "t div msPerDay = c div 24"
    using zdiv_zmult2_eq [of 24 t 3600000] h by (simp add: msPerDay_def msPerHour_def)
  have e4: "a * 1000 + t mod 1000 = t" by (simp add: a_def)
  have e3: "b * 60 + a mod 60 = a" by (simp add: b_def)
  have e2: "c * 60 + b mod 60 = b" by (simp add: c_def)
  have e1: "(c div 24) * 24 + c mod 24 = c" by simp
  have alg: "q * 86400000 + r * 3600000 + x * 60000 + y * 1000 + z
      = ((((q * 24 + r) * 60 + x) * 60 + y) * 1000 + z)" for q r x y z :: int
    by (simp add: algebra_simps)
  have "(c div 24) * 86400000 + (c mod 24) * 3600000 + (b mod 60) * 60000 + (a mod 60) * 1000 + t mod 1000
      = ((((c div 24) * 24 + c mod 24) * 60 + b mod 60) * 60 + a mod 60) * 1000 + t mod 1000"
    by (rule alg)
  also have "\<dots> = t" by (simp only: e1 e2 e3 e4)
  finally show ?thesis
    by (simp add: MakeDate_def MakeTime_def Day_def HourFromTime_def MinFromTime_def SecFromTime_def
        msFromTime_def m h d msPerSecond_def a_def [symmetric])
       (simp add: msPerDay_def msPerHour_def msPerMinute_def)
qed

lemma MakeTime_add_minutes:
  "MakeDate d (MakeTime h (m + n) s ms) = MakeDate d (MakeTime h m s ms) + n * msPerMinute"
  by (simp add: MakeDate_def MakeTime_def algebra_simps)

text \<open>
  \<^verbatim>\<open>setMinutes(getMinutes() + n)\<close> moves the instant by \<open>n\<close> minutes, whatever the zone.
\<close>

lemma setMinutes_add: "setMinutes tza t (getMinutes tza t + n) = t + n * msPerMinute"
  by (simp add: setMinutes_def getMinutes_def Let_def MakeTime_add_minutes time_decomposition
      UTC_def LocalTime_def)

text \<open>
  At or east of Greenwich, midnight UTC of a day is an instant of that day in local time.
\<close>

lemma LocalDay_Date_of_day:
  assumes "0 \<le> tza" "tza < msPerDay"
  shows "LocalDay tza (Date_of_day d) = d"
proof -
  have "(d * msPerDay + tza) div msPerDay = d + tza div msPerDay"
    by (simp add: msPerDay_def)
  moreover have "tza div msPerDay = 0"
    using assms by (simp add: div_pos_pos_trivial)
  ultimately show ?thesis
    by (simp add: LocalDay_def Date_of_day_def LocalTime_def Day_def)
qed

lemma sameDate_east:
  assumes "0 \<le> tza" "tza < msPerDay"
  shows "sameDate tza c (Date_of_day d) \<longleftrightarrow> LocalDay tza c = d"
  by (simp add: sameDate_def LocalDay_Date_of_day [OF assms])

lemma setHours_nine_east:
  assumes "0 \<le> tza" "tza < msPerDay"
  shows "setHours tza (Date_of_day d) 9 0 0 0 = UTC tza (MakeDate d (MakeTime 9 0 0 0))"
  using LocalDay_Date_of_day [OF assms, of d] by (simp add: setHours_def LocalDay_def)

lemma usesCreatedAt_east:
  assumes "0 \<le> tza" "tza < msPerDay"
  shows "usesCreatedAt tza e \<longleftrightarrow> createdOnDate tza e"
  by (simp add: usesCreatedAt_def createdOnDate_def sameDate_east [OF assms] split: stamp.splits)

section \<open>Lists\<close>

lemma distinct_map_eq:
  assumes "distinct (map f xs)" "x \<in> set xs" "y \<in> set xs" "f x = f y"
  shows "x = y"
  using assms by (meson distinct_map inj_onD)


section \<open>The concrete inputs, evaluated\<close>

lemmas store_evals =
  storeHarvestEntries_def selectExisting_def existingEntriesMap_def newEntries_def
  updatedEntries_def unchangedEntries_def insertStep_def updateStep_def insertEntry_def
  updateEntry_def updateRow_def hasChanged_def or_empty_def next_rowid_def Let_def

lemmas time_evals =
  sameDate_def LocalDay_def LocalTime_def Day_def Date_of_day_def UTC_def MakeDate_def MakeTime_def
  setHours_def setMinutes_add roundedMinutes_def Math_round_def
  msPerDay_def msPerHour_def msPerMinute_def

lemmas import_evals =
  importTimeEntries_def getAllPendingEntries_def joinTasks_def importLoop_def importStep_def
  transformEntry_def markAsImported_def initialState_def Let_def api_up_def api_down_def

lemma run_batch0:
  "storeHarvestEntries no_fault 5 batch0 store0 =
     Inr \<lparr>so_result = \<lparr>inserted = 1, updated = 1, unchanged = 1\<rparr>,
          so_insertErrorCount = 1, so_updateErrorCount = 0, so_store = store1\<rparr>"
  by (simp add: store_evals no_fault_def row101_def row102_def row103_def task_dev_def
      task_review_def task_review2_def act_review_def act_other_def act_dev_def store0_def
      entry101_def entry102_def entry103_def batch0_def store1_def setMapping_def)


lemma import_store1:
  "\<exists>s. importTimeEntries no_fault api_up 0 store1 = Inr s \<and>
       map (\<lambda>(e, k). (te_harvest_id (pe_row e), k_begin k, k_end k)) (requests s)
         = [(101, 1741600800000, 1741606200000)] \<and>
       imported s = 1 \<and> failed s = 0"
  by (simp add: import_evals time_evals no_fault_def api_up_def row101_def row102_def row103_def
      task_dev_def task_review_def task_review2_def act_review_def act_other_def act_dev_def
      store0_def entry102_def store1_def setMapping_def updateRow_def or_empty_def)

lemma match_fresh:
  "matchTasksWithActivities no_fault store_fresh = Inr (\<lparr>matched = 2, unmatched = 1\<rparr>, store0)"
  by code_simp





lemma selected_fresh:
  "selectedTasks (tasks store_fresh) (tasks_kimai store_fresh) = [task_review, task_dev]"
  by code_simp

lemma pending_chain:
  "getAllPendingEntries no_fault store_chain
     = Inr [pending row204, pending row201, pending row202, unmapped row203]"
  by (simp add: getAllPendingEntries_def joinTasks_def no_fault_def row101_def row102_def
      task_dev_def task_review_def task_review2_def act_review_def act_other_def act_dev_def
      store0_def row201_def row202_def row203_def row204_def store_chain_def pending_def
      unmapped_def setMapping_def )

lemma sorted_chain:
  "sort_key (\<lambda>e. te_date (pe_row e)) [pending row204, pending row201, pending row202,
      unmapped row203]
     = [pending row201, pending row202, unmapped row203, pending row204]"
  by (simp add: row201_def row202_def row203_def row204_def pending_def unmapped_def)

lemma import_chain_requests:
  "\<exists>s. importTimeEntries no_fault api_up 0 store_chain = Inr s \<and>
       requests s = [(pending row201, k201), (pending row202, k202), (pending row204, k204)] \<and>
       imported s = 3 \<and> failed s = 0 \<and>
       time_entries (is_store s) ! 3 = row203"
  by (simp add: import_evals time_evals no_fault_def api_up_def row101_def row102_def task_dev_def
      task_review_def task_review2_def act_review_def act_other_def act_dev_def store0_def
      row201_def row202_def row203_def row204_def store_chain_def pending_def kimai_def k201_def
      k202_def k204_def setMapping_def  )

text \<open>
  The display name of an activity with a parent and of one without.
\<close>

lemma displayName_examples:
  "displayName \<lparr>ka_id = Some 4, ka_name = ''Review'', ka_parentTitle = Some ''Website'',
                  ka_project = Some 7\<rparr> = ''Website: Review''"
  "displayName \<lparr>ka_id = Some 4, ka_name = ''Review'', ka_parentTitle = None,
                  ka_project = Some 7\<rparr> = ''Review''"
  by (simp_all add: displayName_def)

section \<open>The timestamps of one entry\<close>

text \<open>
  In a zone at or east of Greenwich, \<^verbatim>\<open>transformEntry\<close> follows the three rules: the
  \<^verbatim>\<open>created_at\<close> instant when its local day is the entry's date, else the end time held
  for the date, else 09:00 local time on the date; the end is the begin plus the rounded
  minutes, and the map holds the end for the date afterwards.
\<close>

lemma transformEntry_policy_east:
  assumes "0 \<le> tza" "tza < msPerDay"
    and "transformEntry tza e m = (k, m')"
    and "d = te_date (pe_row e)"
  shows "k_begin k =
           (case te_created_at (pe_row e) of
              Instant c \<Rightarrow> if LocalDay tza c = d then c else sequentialBegin tza d m
            | Unparsable \<Rightarrow> sequentialBegin tza d m
            | Missing \<Rightarrow> sequentialBegin tza d m)"
    and "k_end k = k_begin k + roundedMinutes (te_hours (pe_row e)) * msPerMinute"
    and "m' = m(d \<mapsto> k_end k)"
  using assms(3,4)
  by (auto simp add: transformEntry_def Let_def setMinutes_add sameDate_east [OF assms(1,2)]
      setHours_nine_east [OF assms(1,2)] sequentialBegin_def split: stamp.splits option.splits)

text \<open>
  C1. The three rules give the begin time of every mapped pending entry. Five hours west of
  Greenwich the code does otherwise: \<^verbatim>\<open>new Date(entryDate)\<close> is midnight UTC, which is
  still the evening before in local time. For the entry below, created on its own date,
  the same-date test fails, and the begin time is 09:00 local time of the day before
  (2025-03-10T14:00:00Z) instead of the \<^verbatim>\<open>created_at\<close> instant.
\<close>

theorem transformEntry_west_of_Greenwich:
  "LocalDay (- 18000000) 1741705200000 = te_date (pe_row west_entry) \<and>
   te_created_at (pe_row west_entry) = Instant 1741705200000 \<and>
   k_begin (fst (transformEntry (- 18000000) west_entry Map.empty)) = 1741615200000 \<and>
   LocalDay (- 18000000) 1741615200000 = te_date (pe_row west_entry) - 1"
  by (simp add: west_entry_def west_row_def transformEntry_def Let_def sameDate_def LocalDay_def
      LocalTime_def Day_def Date_of_day_def msPerDay_def setHours_def UTC_def MakeDate_def
      MakeTime_def msPerHour_def)

subsection \<open>One call of transformEntry, in any zone\<close>

lemma transformEntry_map:
  "snd (transformEntry tza e m) = m(te_date (pe_row e) \<mapsto> k_end (fst (transformEntry tza e m)))"
  by (simp add: transformEntry_def Let_def)

lemma transformEntry_end:
  "k_end (fst (transformEntry tza e m))
     = k_begin (fst (transformEntry tza e m)) + roundedMinutes (te_hours (pe_row e)) * msPerMinute"
  by (simp add: transformEntry_def Let_def setMinutes_add)

lemma transformEntry_chained:
  assumes "\<not> usesCreatedAt tza e" "m (te_date (pe_row e)) = Some t"
  shows "k_begin (fst (transformEntry tza e m)) = t"
  using assms by (auto simp: transformEntry_def Let_def usesCreatedAt_def split: stamp.splits)

lemma transformEntry_created:
  assumes "usesCreatedAt tza e"
  shows "te_created_at (pe_row e) = Instant (k_begin (fst (transformEntry tza e m)))"
  using assms by (auto simp: transformEntry_def Let_def usesCreatedAt_def split: stamp.splits)

section \<open>Reconciliation\<close>

subsection \<open>The three classes of a batch and the two loops\<close>

lemma classes_partition:
  "length (newEntries m es) + length (updatedEntries m es) + length (unchangedEntries m es) = length es"
  by (induction es) (auto simp: newEntries_def updatedEntries_def unchangedEntries_def split: option.splits)




lemma insertStep_cases:
  "insertStep fails now e (rows, a, b) = (rows, a, b + 1) \<and> insertEntry fails now e rows = None
   \<or> (\<exists>rows'. insertEntry fails now e rows = Some rows' \<and> insertStep fails now e (rows, a, b) = (rows', a + 1, b))"
  by (cases "insertEntry fails now e rows") (simp_all add: insertStep_def)

lemma insert_loop_counts:
  "fold (insertStep fails now) es (rows, a, b) = (rows', a', b') \<Longrightarrow> a' + b' = a + b + length es"
proof (induction es arbitrary: rows a b)
  case Nil
  then show ?case by simp
next
  case (Cons e es)
  from insertStep_cases [of fails now e rows a b] Cons.prems Cons.IH show ?case
    by (elim disjE exE conjE) fastforce+
qed

lemma updateStep_cases:
  "updateStep fails e (rows, a, b) = (rows, a, b + 1) \<and> updateEntry fails e rows = None
   \<or> (\<exists>rows'. updateEntry fails e rows = Some rows' \<and> updateStep fails e (rows, a, b) = (rows', a + 1, b))"
  by (cases "updateEntry fails e rows") (simp_all add: updateStep_def)

lemma update_loop_counts:
  "fold (updateStep fails) es (rows, a, b) = (rows', a', b') \<Longrightarrow> a' + b' = a + b + length es"
proof (induction es arbitrary: rows a b)
  case Nil
  then show ?case by simp
next
  case (Cons e es)
  from updateStep_cases [of fails e rows a b] Cons.prems Cons.IH show ?case
    by (elim disjE exE conjE) fastforce+
qed

text \<open>
The shape of a run that got past the SELECT.
\<close>

lemma storeHarvestEntries_run:
  assumes "storeHarvestEntries fails now entries st = Inr out" and "entries \<noteq> []"
  obtains rows1 a1 b1 rows2 a2 b2 m where
    "m = existingEntriesMap (selectExisting (map he_id entries) (time_entries st))"
    "fold (insertStep fails now) (newEntries m entries) (time_entries st, 0, 0) = (rows1, a1, b1)"
    "fold (updateStep fails) (updatedEntries m entries) (rows1, 0, 0) = (rows2, a2, b2)"
    "so_store out = st\<lparr>time_entries := rows2\<rparr>"
    "so_insertErrorCount out = b1" "so_updateErrorCount out = b2"
    "unchanged (so_result out) = length (unchangedEntries m entries)"
    "inserted (so_result out) = a1"
    "updated (so_result out) = a2"
    "\<not> fails SelectExisting"
proof -
  define m where "m = existingEntriesMap (selectExisting (map he_id entries) (time_entries st))"
  obtain rows1 a1 b1 where i: "fold (insertStep fails now) (newEntries m entries) (time_entries st, 0, 0) = (rows1, a1, b1)"
    by (metis prod_cases3)
  obtain rows2 a2 b2 where u: "fold (updateStep fails) (updatedEntries m entries) (rows1, 0, 0) = (rows2, a2, b2)"
    by (metis prod_cases3)
  have nf: "\<not> fails SelectExisting"
    using assms by (auto simp: storeHarvestEntries_def split: if_splits)
  have out: "out = \<lparr>so_result =
                  (if updatedEntries m entries \<noteq> [] then
                     \<lparr>inserted = a1, updated = a2, unchanged = length (unchangedEntries m entries)\<rparr>
                   else if newEntries m entries \<noteq> [] then
                     \<lparr>inserted = a1, updated = 0, unchanged = length (unchangedEntries m entries)\<rparr>
                   else \<lparr>inserted = 0, updated = 0, unchanged = length (unchangedEntries m entries)\<rparr>),
                so_insertErrorCount = b1,
                so_updateErrorCount = b2,
                so_store = st\<lparr>time_entries := rows2\<rparr>\<rparr>"
    using assms nf i u unfolding m_def by (simp add: storeHarvestEntries_def Let_def)
  have a1: "newEntries m entries = [] \<Longrightarrow> a1 = 0"
    using i by simp
  have a2: "updatedEntries m entries = [] \<Longrightarrow> a2 = 0"
    using u by simp
  show ?thesis
    by (rule that [OF m_def i u]) (use out nf a1 a2 in auto)
qed

text \<open>
  C5. An empty batch returns three zeros and leaves the store as it is. A batch whose
  SELECT succeeds always resolves, whatever happens to single rows, and the three counts it
  returns, with the two error counts it logs, add up to the size of the batch.
\<close>

theorem storeHarvestEntries_counts:
  "storeHarvestEntries fails now [] st =
     Inr \<lparr>so_result = \<lparr>inserted = 0, updated = 0, unchanged = 0\<rparr>,
          so_insertErrorCount = 0, so_updateErrorCount = 0, so_store = st\<rparr> \<and>
   (\<not> fails SelectExisting \<longrightarrow> (\<exists>out. storeHarvestEntries fails now entries st = Inr out)) \<and>
   (storeHarvestEntries fails now entries st = Inr out \<longrightarrow>
      inserted (so_result out) + updated (so_result out) + unchanged (so_result out)
        + so_insertErrorCount out + so_updateErrorCount out = length entries)"
proof (intro conjI impI)
  show "storeHarvestEntries fails now [] st =
     Inr \<lparr>so_result = \<lparr>inserted = 0, updated = 0, unchanged = 0\<rparr>,
          so_insertErrorCount = 0, so_updateErrorCount = 0, so_store = st\<rparr>"
    by (simp add: storeHarvestEntries_def)
next
  assume "\<not> fails SelectExisting"
  then show "\<exists>out. storeHarvestEntries fails now entries st = Inr out"
    by (simp add: storeHarvestEntries_def Let_def split: prod.splits)
next
  assume run: "storeHarvestEntries fails now entries st = Inr out"
  show "inserted (so_result out) + updated (so_result out) + unchanged (so_result out)
        + so_insertErrorCount out + so_updateErrorCount out = length entries"
  proof (cases "entries = []")
    case True
    with run show ?thesis by (auto simp: storeHarvestEntries_def)
  next
    case False
    from run False obtain rows1 a1 b1 rows2 a2 b2 m where
      i: "fold (insertStep fails now) (newEntries m entries) (time_entries st, 0, 0) = (rows1, a1, b1)" and
      u: "fold (updateStep fails) (updatedEntries m entries) (rows1, 0, 0) = (rows2, a2, b2)" and
      r: "so_insertErrorCount out = b1" "so_updateErrorCount out = b2"
         "unchanged (so_result out) = length (unchangedEntries m entries)"
         "inserted (so_result out) = a1" "updated (so_result out) = a2"
      by (rule storeHarvestEntries_run)
    from insert_loop_counts [OF i] update_loop_counts [OF u] classes_partition [of m entries] r
    show ?thesis by simp
  qed
qed

theorem storeHarvestEntries_counts_witness:
  "\<not> no_fault SelectExisting \<and>
   storeHarvestEntries no_fault 5 batch0 store0 = Inr outcome0 \<and>
   inserted (so_result outcome0) + updated (so_result outcome0) + unchanged (so_result outcome0)
     + so_insertErrorCount outcome0 + so_updateErrorCount outcome0 = length batch0 \<and>
   so_insertErrorCount outcome0 = 1"
proof -
  have run: "storeHarvestEntries no_fault 5 batch0 store0 = Inr outcome0"
    unfolding outcome0_def by (rule run_batch0)
  from storeHarvestEntries_counts [of no_fault 5 store0 batch0 outcome0] run show ?thesis
    by (simp add: no_fault_def outcome0_def)
qed

subsection \<open>What the inserts and the updates leave\<close>

lemma insertEntry_Some:
  assumes "insertEntry fails now e rows = Some rows'"
  obtains r where "rows' = rows @ [r]" "te_harvest_id r = he_id e" "te_imported r = 0"
    "te_kimai_id r = None" "\<not> hasChanged r e" "he_id e \<notin> te_harvest_id ` set rows"
  using assms by (auto simp: insertEntry_def hasChanged_def split: if_splits)

lemma updateRow_untouched: "untouched r (updateRow e r)"
  by (simp add: untouched_def updateRow_def)

lemma updateRow_harvest_id [simp]: "te_harvest_id (updateRow e r) = te_harvest_id r"
  by (simp add: updateRow_def)


lemma updateRow_twice: "updateRow e' (updateRow e r) = updateRow e' r"
  by (simp add: updateRow_def)

lemma upd_rel_untouched: "upd_rel es r r' \<Longrightarrow> untouched r r'"
  by (auto simp: upd_rel_def untouched_def updateRow_def)

lemma upd_rel_step:
  assumes "upd_rel [e] r r1" "upd_rel es r1 r2"
  shows "upd_rel (e # es) r r2"
  using assms by (auto simp: upd_rel_def updateRow_twice)

lemma updateEntry_Some:
  assumes "updateEntry fails e rows = Some rows'"
  shows "rows' = map (\<lambda>r. if te_harvest_id r = he_id e then updateRow e r else r) rows"
  using assms by (auto simp: updateEntry_def split: if_splits)

lemma insertStep_None:
  "insertEntry fails now e rows = None \<Longrightarrow> insertStep fails now e (rows, a, b) = (rows, a, b + 1)"
  by (simp add: insertStep_def)

lemma insertStep_Some:
  "insertEntry fails now e rows = Some rows' \<Longrightarrow> insertStep fails now e (rows, a, b) = (rows', a + 1, b)"
  by (simp add: insertStep_def)

lemma updateStep_None:
  "updateEntry fails e rows = None \<Longrightarrow> updateStep fails e (rows, a, b) = (rows, a, b + 1)"
  by (simp add: updateStep_def)

lemma updateStep_Some:
  "updateEntry fails e rows = Some rows' \<Longrightarrow> updateStep fails e (rows, a, b) = (rows', a + 1, b)"
  by (simp add: updateStep_def)

lemma insert_loop_errors_mono:
  "fold (insertStep fails now) es (rows, a, b) = (rows', a', b') \<Longrightarrow> b \<le> b'"
proof (induction es arbitrary: rows a b)
  case Nil
  then show ?case by simp
next
  case (Cons e es)
  from insertStep_cases [of fails now e rows a b] Cons.prems Cons.IH show ?case
    by (elim disjE exE conjE) fastforce+
qed

lemma insert_loop_rows:
  assumes "fold (insertStep fails now) es (rows, a, b) = (rows', a', b')"
  obtains added where "rows' = rows @ added"
    "list_all (\<lambda>r. te_imported r = 0 \<and> te_kimai_id r = None) added"
    "distinct (map te_harvest_id rows) \<longrightarrow> distinct (map te_harvest_id rows')"
    "b' = b \<longrightarrow> (\<forall>e\<in>set es. \<exists>r\<in>set added. te_harvest_id r = he_id e \<and> \<not> hasChanged r e)"
proof -
  have "\<exists>added. rows' = rows @ added \<and>
      list_all (\<lambda>r. te_imported r = 0 \<and> te_kimai_id r = None) added \<and>
      (distinct (map te_harvest_id rows) \<longrightarrow> distinct (map te_harvest_id rows')) \<and>
      (b' = b \<longrightarrow> (\<forall>e\<in>set es. \<exists>r\<in>set added. te_harvest_id r = he_id e \<and> \<not> hasChanged r e))"
    using assms
  proof (induction es arbitrary: rows a b)
    case Nil
    then show ?case by simp
  next
    case (Cons e es)
    show ?case
    proof (cases "insertEntry fails now e rows")
      case None
      then have step: "fold (insertStep fails now) es (rows, a, b + 1) = (rows', a', b')"
        using Cons.prems by (simp add: insertStep_None)
      from insert_loop_errors_mono [OF step] have "b' \<noteq> b" by simp
      with Cons.IH [OF step] show ?thesis by auto
    next
      case (Some rows1)
      then have step: "fold (insertStep fails now) es (rows1, a + 1, b) = (rows', a', b')"
        using Cons.prems by (simp add: insertStep_Some)
      from Some obtain r where r: "rows1 = rows @ [r]" "te_harvest_id r = he_id e"
        "te_imported r = 0" "te_kimai_id r = None" "\<not> hasChanged r e"
        "he_id e \<notin> te_harvest_id ` set rows"
        by (rule insertEntry_Some)
      from Cons.IH [OF step] obtain added where added: "rows' = rows1 @ added"
        "list_all (\<lambda>r. te_imported r = 0 \<and> te_kimai_id r = None) added"
        "distinct (map te_harvest_id rows1) \<longrightarrow> distinct (map te_harvest_id rows')"
        "b' = b \<longrightarrow> (\<forall>e\<in>set es. \<exists>r\<in>set added. te_harvest_id r = he_id e \<and> \<not> hasChanged r e)"
        by blast
      have d: "distinct (map te_harvest_id rows) \<Longrightarrow> distinct (map te_harvest_id rows1)"
        using r by auto
      show ?thesis
        by (rule exI [of _ "r # added"]) (use r added d in auto)
    qed
  qed
  then show ?thesis using that by blast
qed


lemma update_loop_rel:
  "fold (updateStep fails) es (rows, a, b) = (rows', a', b') \<Longrightarrow> list_all2 (upd_rel es) rows rows'"
proof (induction es arbitrary: rows a b)
  case Nil
  then show ?case by (simp add: upd_rel_def list_all2_refl)
next
  case (Cons e es)
  show ?case
  proof (cases "updateEntry fails e rows")
    case None
    then have "fold (updateStep fails) es (rows, a, b + 1) = (rows', a', b')"
      using Cons.prems by (simp add: updateStep_None)
    from Cons.IH [OF this] show ?thesis
      by (rule list_all2_mono) (auto simp: upd_rel_def)
  next
    case (Some rows1)
    then have step: "fold (updateStep fails) es (rows1, a + 1, b) = (rows', a', b')"
      using Cons.prems by (simp add: updateStep_Some)
    have "list_all2 (upd_rel [e]) rows rows1"
      unfolding updateEntry_Some [OF Some]
      by (simp add: list_all2_map2 upd_rel_def list_all2_refl)
    from list_all2_trans [of "upd_rel [e]" "upd_rel es" "upd_rel (e # es)", OF _ this Cons.IH [OF step]]
    show ?thesis using upd_rel_step by blast
  qed
qed



lemma applied_harvest_id [simp]: "te_harvest_id (applied es r) = te_harvest_id r"
  by (simp add: applied_def split: option.splits)

lemma storeHarvestEntries_rows:
  assumes "storeHarvestEntries fails now entries st = Inr out"
  obtains added rows1 where
    "list_all (\<lambda>r. te_imported r = 0 \<and> te_kimai_id r = None) added"
    "rows1 = time_entries st @ added"
    "list_all2 (upd_rel entries) rows1 (time_entries (so_store out))"
    "tasks (so_store out) = tasks st" "tasks_kimai (so_store out) = tasks_kimai st"
proof (cases "entries = []")
  case True
  with assms have "so_store out = st"
    by (auto simp: storeHarvestEntries_def)
  then show ?thesis
    using that [of "[]" "time_entries st"] by (simp add: upd_rel_def list_all2_refl)
next
  case False
  from assms False obtain rows1 a1 b1 rows2 a2 b2 m where
    i: "fold (insertStep fails now) (newEntries m entries) (time_entries st, 0, 0) = (rows1, a1, b1)" and
    u: "fold (updateStep fails) (updatedEntries m entries) (rows1, 0, 0) = (rows2, a2, b2)" and
    s: "so_store out = st\<lparr>time_entries := rows2\<rparr>"
    by (rule storeHarvestEntries_run)
  from i obtain added where a: "rows1 = time_entries st @ added"
    "list_all (\<lambda>r. te_imported r = 0 \<and> te_kimai_id r = None) added"
    by (rule insert_loop_rows)
  have "list_all2 (upd_rel (updatedEntries m entries)) rows1 rows2"
    by (rule update_loop_rel [OF u])
  then have "list_all2 (upd_rel entries) rows1 rows2"
    by (rule list_all2_mono) (auto simp: upd_rel_def updatedEntries_def)
  with a s show ?thesis
    using that [of added rows1] by simp
qed

lemma storeHarvestEntries_distinct:
  assumes "storeHarvestEntries fails now entries st = Inr out"
    and "distinct (map te_harvest_id (time_entries st))"
  shows "distinct (map te_harvest_id (time_entries (so_store out)))"
proof (cases "entries = []")
  case True
  with assms show ?thesis by (auto simp: storeHarvestEntries_def)
next
  case False
  from assms(1) False obtain rows1 a1 b1 rows2 a2 b2 m where
    i: "fold (insertStep fails now) (newEntries m entries) (time_entries st, 0, 0) = (rows1, a1, b1)" and
    u: "fold (updateStep fails) (updatedEntries m entries) (rows1, 0, 0) = (rows2, a2, b2)" and
    s: "so_store out = st\<lparr>time_entries := rows2\<rparr>"
    by (rule storeHarvestEntries_run)
  from i assms(2) have d1: "distinct (map te_harvest_id rows1)"
    by (elim insert_loop_rows) blast
  have "list_all2 (\<lambda>r r'. te_harvest_id r' = te_harvest_id r) rows1 rows2"
    by (rule list_all2_mono [OF update_loop_rel [OF u]]) (auto simp: upd_rel_def)
  then have "map te_harvest_id rows2 = map te_harvest_id rows1"
    by (induction rule: list_all2_induct) auto
  with d1 s show ?thesis by simp
qed

subsection \<open>The import loop, entry by entry\<close>

lemma importStep_unmapped: "\<not> mapped e \<Longrightarrow> importStep fails api tza e s = s"
  by (auto simp: importStep_def mapped_def)

lemma importStep_mapped:
  fixes fails api
  assumes "mapped e" "transformEntry tza e (dateEndTimeMap s) = (k, m)"
  defines "s' \<equiv> importStep fails api tza e s"
  shows "requests s' = requests s @ [(e, k)]"
    and "dateEndTimeMap s' = m"
    and "(failed s' = failed s + 1 \<and> imported s' = imported s \<and> is_store s' = is_store s \<and>
          (\<forall>kid. api (length (requests s)) k = Inr kid \<longrightarrow>
             (\<exists>err. markAsImported fails (te_harvest_id (pe_row e)) kid (is_store s) = Inl err)))
       \<or> (\<exists>kid st'. api (length (requests s)) k = Inr kid \<and>
             markAsImported fails (te_harvest_id (pe_row e)) kid (is_store s) = Inr st' \<and>
             is_store s' = st' \<and> imported s' = imported s + 1 \<and> failed s' = failed s)"
  using assms(1,2) unfolding s'_def
  by (auto simp: importStep_def mapped_def Let_def split: sum.splits)

lemma importLoop_Cons [simp]:
  "importLoop fails api tza (e # es) s = importLoop fails api tza es (importStep fails api tza e s)"
  by (simp add: importLoop_def)

lemma importLoop_Nil [simp]: "importLoop fails api tza [] s = s"
  by (simp add: importLoop_def)


lemma importStep_entries:
  "map fst (requests (importStep fails api tza e s)) = map fst (requests s) @ (if mapped e then [e] else [])"
proof (cases "mapped e")
  case True
  obtain k m where "transformEntry tza e (dateEndTimeMap s) = (k, m)" by (cases "transformEntry tza e (dateEndTimeMap s)")
  from importStep_mapped(1) [OF True this] True show ?thesis by simp
next
  case False
  then show ?thesis by (simp add: importStep_unmapped)
qed

lemma importLoop_entries:
  "map fst (requests (importLoop fails api tza es s)) = map fst (requests s) @ filter mapped es"
  by (induction es arbitrary: s) (simp_all add: importStep_entries)

lemma importStep_counts:
  "imported (importStep fails api tza e s) + failed (importStep fails api tza e s)
     = imported s + failed s + (if mapped e then 1 else 0)"
proof (cases "mapped e")
  case True
  obtain k m where "transformEntry tza e (dateEndTimeMap s) = (k, m)" by (cases "transformEntry tza e (dateEndTimeMap s)")
  from importStep_mapped(3) [OF True this, where fails = fails and api = api] True show ?thesis by auto
next
  case False
  then show ?thesis by (simp add: importStep_unmapped)
qed

lemma importLoop_counts:
  "imported (importLoop fails api tza es s) + failed (importLoop fails api tza es s)
     = imported s + failed s + length (filter mapped es)"
  by (induction es arbitrary: s) (simp_all add: importStep_counts)

lemma pending_rows:
  assumes "getAllPendingEntries fails st = Inr es" "e \<in> set es"
  shows "pe_row e \<in> set (time_entries st) \<and> te_imported (pe_row e) = 0"
  using assms
  by (auto simp: getAllPendingEntries_def joinTasks_def Let_def split: if_splits)

lemma markAsImported_rows:
  assumes "markAsImported fails h k st = Inr st'"
  shows "time_entries st' =
           map (\<lambda>r. if te_harvest_id r = h then r\<lparr>te_imported := 1, te_kimai_id := Some k\<rparr> else r)
             (time_entries st)"
    and "tasks st' = tasks st" and "tasks_kimai st' = tasks_kimai st"
  using assms by (auto simp: markAsImported_def split: if_splits)




lemma importTimeEntries_run:
  assumes "importTimeEntries fails api tza st = Inr s"
  obtains entries where "getAllPendingEntries fails st = Inr entries"
    "s = importLoop fails api tza (sort_key (\<lambda>e. te_date (pe_row e)) entries) (initialState st)"
proof -
  from assms obtain entries where g: "getAllPendingEntries fails st = Inr entries"
    by (auto simp: importTimeEntries_def split: sum.splits)
  with assms have "s = importLoop fails api tza (sort_key (\<lambda>e. te_date (pe_row e)) entries) (initialState st)"
    by (auto simp: importTimeEntries_def split: if_splits)
  with g show ?thesis by (rule that)
qed


subsection \<open>Reconciliation and the imported mark\<close>

text \<open>
  C4. A run of \<^verbatim>\<open>storeHarvestEntries\<close> leaves every row that was in the table at its
  place, either as it was or with the eight compared columns set from an entry of the
  batch with its \<^verbatim>\<open>harvest_id\<close>; the rowid, \<^verbatim>\<open>harvest_id\<close>, \<^verbatim>\<open>kimai_id\<close>,
  \<^verbatim>\<open>imported\<close> and \<^verbatim>\<open>created_at\<close> of the row are as before. So a row that was marked
  imported is not among the entries a following run of the importer submits.
\<close>

theorem reconciliation_keeps_import_status:
  assumes "storeHarvestEntries fails now entries st = Inr out"
    and "i < length (time_entries st)"
  shows "i < length (time_entries (so_store out)) \<and>
         untouched (time_entries st ! i) (time_entries (so_store out) ! i) \<and>
         (time_entries (so_store out) ! i = time_entries st ! i \<or>
          (\<exists>e\<in>set entries. he_id e = te_harvest_id (time_entries st ! i) \<and>
             time_entries (so_store out) ! i = updateRow e (time_entries st ! i))) \<and>
         (distinct (map te_harvest_id (time_entries st)) \<and> te_imported (time_entries st ! i) = 1 \<and>
          importTimeEntries fails' api tza (so_store out) = Inr s \<longrightarrow>
            te_harvest_id (time_entries st ! i) \<notin> (te_harvest_id \<circ> pe_row \<circ> fst) ` set (requests s))"
proof -
  let ?rows = "time_entries st" and ?rows' = "time_entries (so_store out)"
  from assms(1) obtain added rows1 where
    r1: "rows1 = ?rows @ added" and rel: "list_all2 (upd_rel entries) rows1 ?rows'"
    by (rule storeHarvestEntries_rows)
  from rel have len: "length ?rows' = length rows1"
    by (simp add: list_all2_lengthD)
  with r1 assms(2) have i': "i < length ?rows'" "i < length rows1" by simp_all
  from rel i' have "upd_rel entries (rows1 ! i) (?rows' ! i)"
    by (simp add: list_all2_nthD)
  with r1 assms(2) have u: "upd_rel entries (?rows ! i) (?rows' ! i)"
    by (simp add: nth_append)
  have resubmit: "te_harvest_id (?rows ! i) \<notin> (te_harvest_id \<circ> pe_row \<circ> fst) ` set (requests s)"
    if d: "distinct (map te_harvest_id ?rows)" and imp: "te_imported (?rows ! i) = 1"
      and run: "importTimeEntries fails' api tza (so_store out) = Inr s"
  proof
    assume "te_harvest_id (?rows ! i) \<in> (te_harvest_id \<circ> pe_row \<circ> fst) ` set (requests s)"
    then obtain e where e: "e \<in> set (map fst (requests s))"
      "te_harvest_id (pe_row e) = te_harvest_id (?rows ! i)"
      by force
    from run obtain pend where p: "getAllPendingEntries fails' (so_store out) = Inr pend"
      "s = importLoop fails' api tza (sort_key (\<lambda>e. te_date (pe_row e)) pend) (initialState (so_store out))"
      by (rule importTimeEntries_run)
    from e(1) have "e \<in> set pend"
      unfolding p(2) importLoop_entries by (simp add: initialState_def)
    from pending_rows [OF p(1) this] have row: "pe_row e \<in> set ?rows'" "te_imported (pe_row e) = 0"
      by simp_all
    have d': "distinct (map te_harvest_id ?rows')"
      by (rule storeHarvestEntries_distinct [OF assms(1) d])
    have "te_harvest_id (?rows' ! i) = te_harvest_id (?rows ! i)" "te_imported (?rows' ! i) = te_imported (?rows ! i)"
      using upd_rel_untouched [OF u] by (simp_all add: untouched_def)
    moreover have "?rows' ! i \<in> set ?rows'" using i' by simp
    ultimately have "pe_row e = ?rows' ! i"
      using distinct_map_eq [OF d' row(1), of "?rows' ! i"] e(2) by simp
    with row(2) imp \<open>te_imported (?rows' ! i) = te_imported (?rows ! i)\<close> show False by simp
  qed
  from i' u resubmit show ?thesis
    by (auto simp: upd_rel_untouched) (auto simp: upd_rel_def)
qed

theorem reconciliation_keeps_import_status_witness:
  "storeHarvestEntries no_fault 5 batch0 store0 = Inr outcome0 \<and>
   (1::nat) < length (time_entries store0) \<and>
   distinct (map te_harvest_id (time_entries store0)) \<and>
   te_imported (time_entries store0 ! 1) = 1 \<and>
   (\<exists>s. importTimeEntries no_fault api_up 0 (so_store outcome0) = Inr s \<and> requests s
      \<noteq> [] \<and>
        te_harvest_id (time_entries store0 ! 1) \<notin> (te_harvest_id \<circ> pe_row \<circ> fst)
      ` set (requests s)) \<and>
   untouched (time_entries store0 ! 1) (time_entries (so_store outcome0) ! 1) \<and>
   time_entries (so_store outcome0) ! 1 = updateRow entry102 (time_entries store0 ! 1) \<and>
   te_notes (time_entries (so_store outcome0) ! 1) \<noteq> te_notes (time_entries store0 ! 1)"
proof -
  have run: "storeHarvestEntries no_fault 5 batch0 store0 = Inr outcome0"
    unfolding outcome0_def by (rule run_batch0)
  have i: "(1::nat) < length (time_entries store0)"
    by (simp add: store0_def)
  have d: "distinct (map te_harvest_id (time_entries store0))"
    by (simp add: no_fault_def api_up_def row101_def row102_def row103_def task_dev_def
      task_review_def task_review2_def act_review_def act_other_def act_dev_def store0_def
      entry101_def entry102_def entry103_def batch0_def store1_def outcome0_def setMapping_def)
  have imp: "te_imported (time_entries store0 ! 1) = 1"
    by (simp add: no_fault_def api_up_def row101_def row102_def row103_def task_dev_def
      task_review_def task_review2_def act_review_def act_other_def act_dev_def store0_def
      entry101_def entry102_def entry103_def batch0_def store1_def outcome0_def setMapping_def)
  from import_store1 obtain s where
    s: "importTimeEntries no_fault api_up 0 (so_store outcome0) = Inr s" "requests s \<noteq> []"
    by (auto simp: outcome0_def)
  have upd: "time_entries (so_store outcome0) ! 1 = updateRow entry102 (time_entries store0 ! 1)"
    "te_notes (time_entries (so_store outcome0) ! 1) \<noteq> te_notes (time_entries store0 ! 1)"
    by (simp_all add: outcome0_def no_fault_def api_up_def row101_def row102_def row103_def
      task_dev_def task_review_def task_review2_def act_review_def act_other_def act_dev_def
      store0_def entry101_def entry102_def entry103_def batch0_def store1_def outcome0_def
      setMapping_def updateRow_def or_empty_def)
  from reconciliation_keeps_import_status [OF run i, of no_fault api_up 0 s] run i d imp s upd
  show ?thesis by blast
qed



subsection \<open>The invariant of the imported mark\<close>










section \<open>Matching tasks with activities\<close>

subsection \<open>The search for a task\<close>




subsection \<open>The updates queued and run\<close>


lemma findMatches_selected:
  "findMatches ts acts = Inr ps \<Longrightarrow> map snd ps = selectedTasks ts acts"
proof (induction acts arbitrary: ps)
  case Nil
  then show ?case by (simp add: selectedTasks_def)
next
  case (Cons a acts)
  then show ?case
    by (auto simp: selectedTasks_def split: sum.splits option.splits)
qed

lemma runUpdates_fold:
  "runUpdates fails ps (rows, c) = Inr (rows', c') \<Longrightarrow>
     rows' = fold (\<lambda>(a, t). updateTask a t) ps rows \<and>
     matched c' = matched c + int (length ps) \<and> unmatched c' = unmatched c - int (length ps)"
proof (induction ps arbitrary: rows c)
  case Nil
  then show ?case by simp
next
  case (Cons p ps)
  obtain a t where p: "p = (a, t)" by (cases p)
  from Cons.prems have "runUpdates fails ps (updateTask a t rows,
      \<lparr>matched = matched c + 1, unmatched = unmatched c - 1\<rparr>) = Inr (rows', c')"
    by (simp add: p split: if_splits)
  from Cons.IH [OF this] show ?case by (simp add: p)
qed

lemma setMapping_id [simp]: "t_id (setMapping a r) = t_id r"
  by (simp add: setMapping_def)

lemma setMapping_twice [simp]: "setMapping a (setMapping b r) = setMapping a r"
  by (simp add: setMapping_def)

lemma mappingOf_id [simp]: "t_id (mappingOf ts acts r) = t_id r"
  by (simp add: mappingOf_def split: option.splits)

lemma setMapping_mappingOf [simp]: "setMapping a (mappingOf ts acts r) = setMapping a r"
  by (simp add: mappingOf_def split: option.splits)

lemma mappingOf_Nil [simp]: "mappingOf ts [] = id"
  by (rule ext) (simp add: mappingOf_def)



text \<open>
The shape of a run that reached the updates, and of one that did not.
\<close>

lemma matchTasksWithActivities_run:
  assumes "matchTasksWithActivities fails st = Inr (c, st')"
    and "tasks st \<noteq> []" "tasks_kimai st \<noteq> []"
  obtains ps rows where "findMatches (tasks st) (tasks_kimai st) = Inr ps"
    "runUpdates fails ps (tasks st, \<lparr>matched = 0, unmatched = int (length (tasks st))\<rparr>) = Inr (rows, c)"
    "st' = st\<lparr>tasks := rows\<rparr>"
  using assms
  by (auto simp: matchTasksWithActivities_def Let_def split: if_splits sum.splits)

lemma matchTasksWithActivities_empty:
  assumes "matchTasksWithActivities fails st = Inr (c, st')"
    and "tasks st = [] \<or> tasks_kimai st = []"
  shows "c = \<lparr>matched = 0, unmatched = 0\<rparr> \<and> st' = st"
  using assms
  by (auto simp: matchTasksWithActivities_def Let_def split: if_splits sum.splits)



text \<open>
  C7. With an empty catalog on either side the step returns 0 and 0 and changes nothing,
  however many tasks there are. Otherwise \<open>matched\<close> counts the updates run, one for each
  activity that found a task, and \<open>unmatched\<close> is the number of tasks minus
  \<open>matched\<close>; where no two activities found the same task, that is the number of tasks
  minus the number of tasks updated.
\<close>

theorem matching_counts:
  assumes "matchTasksWithActivities fails st = Inr (c, st')"
  shows "if tasks st = [] \<or> tasks_kimai st = [] then c = \<lparr>matched = 0, unmatched = 0\<rparr> \<and> st' = st
         else matched c = int (length (selectedTasks (tasks st) (tasks_kimai st))) \<and>
              unmatched c = int (length (tasks st)) - matched c \<and>
              (distinct (selectedTasks (tasks st) (tasks_kimai st)) \<longrightarrow>
                 unmatched c = int (length (tasks st))
                    - int (card (set (selectedTasks (tasks st) (tasks_kimai st)))))"
proof (cases "tasks st = [] \<or> tasks_kimai st = []")
  case True
  with matchTasksWithActivities_empty [OF assms True] show ?thesis by simp
next
  case False
  then have ne: "tasks st \<noteq> []" "tasks_kimai st \<noteq> []" by simp_all
  from assms ne obtain ps rows where ps: "findMatches (tasks st) (tasks_kimai st) = Inr ps"
    "runUpdates fails ps (tasks st, \<lparr>matched = 0, unmatched = int (length (tasks st))\<rparr>) = Inr (rows, c)"
    "st' = st\<lparr>tasks := rows\<rparr>"
    by (rule matchTasksWithActivities_run)
  from findMatches_selected [OF ps(1)] have len: "length ps = length (selectedTasks (tasks st) (tasks_kimai st))"
    by (metis length_map)
  from runUpdates_fold [OF ps(2)] len
  have m: "matched c = int (length (selectedTasks (tasks st) (tasks_kimai st)))"
    and u: "unmatched c = int (length (tasks st)) - matched c"
    by simp_all
  with False show ?thesis by (simp add: distinct_card)
qed

text \<open>
  With three tasks and no activity, \<open>unmatched\<close> is 0, not 3.
\<close>

theorem matching_counts_counterexample:
  "matchTasksWithActivities no_fault store_no_activities =
     Inr (\<lparr>matched = 0, unmatched = 0\<rparr>, store_no_activities) \<and>
   length (tasks store_no_activities) = 3 \<and>
   selectedTasks (tasks store_no_activities) (tasks_kimai store_no_activities) = [] \<and>
   unmatched \<lparr>matched = 0, unmatched = 0\<rparr>
     \<noteq> int (length (tasks store_no_activities))
         - int (card (set (selectedTasks (tasks store_no_activities) (tasks_kimai store_no_activities))))"
  by (simp add: matchTasksWithActivities_def store_no_activities_def store_fresh_def no_fault_def
      selectedTasks_def)

theorem matching_counts_witness:
  "matchTasksWithActivities no_fault store_fresh = Inr (\<lparr>matched = 2, unmatched = 1\<rparr>,
      store0) \<and>
   tasks store_fresh \<noteq> [] \<and> tasks_kimai store_fresh \<noteq> [] \<and>
   distinct (selectedTasks (tasks store_fresh) (tasks_kimai store_fresh)) \<and>
   int (length (selectedTasks (tasks store_fresh) (tasks_kimai store_fresh))) = 2 \<and>
   int (length (tasks store_fresh))
     - int (card (set (selectedTasks (tasks store_fresh) (tasks_kimai store_fresh)))) = 1"
proof -
  have ne: "tasks store_fresh \<noteq> []" "tasks_kimai store_fresh \<noteq> []"
    by (simp_all add: store_fresh_def)
  have d: "distinct (selectedTasks (tasks store_fresh) (tasks_kimai store_fresh))"
    unfolding selected_fresh by (simp add: no_fault_def row101_def row102_def task_dev_def
      task_review_def task_review2_def act_review_def act_other_def act_dev_def store_fresh_def
      store0_def setMapping_def)
  from matching_counts [OF match_fresh] match_fresh ne d show ?thesis
    by simp
qed

section \<open>The transfer\<close>

subsection \<open>The loop derives its timestamps whatever Kimai answers\<close>

lemma importStep_derive:
  "requests (importStep fails api tza e s)
     = requests s @ derive tza (filter mapped [e]) (dateEndTimeMap s) \<and>
   dateEndTimeMap (importStep fails api tza e s) = deriveMap tza (filter mapped [e]) (dateEndTimeMap s)"
proof (cases "mapped e")
  case True
  obtain k m where t: "transformEntry tza e (dateEndTimeMap s) = (k, m)"
    by (cases "transformEntry tza e (dateEndTimeMap s)")
  from importStep_mapped(1,2) [OF True t, where fails = fails and api = api] True t show ?thesis
    by simp
next
  case False
  then show ?thesis by (simp add: importStep_unmapped)
qed

lemma importLoop_derive:
  "requests (importLoop fails api tza es s)
     = requests s @ derive tza (filter mapped es) (dateEndTimeMap s) \<and>
   dateEndTimeMap (importLoop fails api tza es s) = deriveMap tza (filter mapped es) (dateEndTimeMap s)"
proof (induction es arbitrary: s)
  case Nil
  show ?case by simp
next
  case (Cons e es)
  from Cons.IH [of "importStep fails api tza e s"] importStep_derive [of fails api tza e s]
  show ?case by (cases "mapped e") simp_all
qed

lemma importTimeEntries_derive:
  assumes "importTimeEntries fails api tza st = Inr s"
  obtains es where "requests s = derive tza es Map.empty"
proof -
  from assms obtain entries where
    "s = importLoop fails api tza (sort_key (\<lambda>e. te_date (pe_row e)) entries) (initialState st)"
    by (rule importTimeEntries_run)
  with importLoop_derive [of fails api tza "sort_key (\<lambda>e. te_date (pe_row e)) entries" "initialState st"]
  have "requests s = derive tza (filter mapped (sort_key (\<lambda>e. te_date (pe_row e)) entries)) Map.empty"
    by (simp add: initialState_def)
  then show ?thesis by (rule that)
qed

subsection \<open>Chains of one date\<close>

lemma derive_chain_next:
  assumes "derive tza xs m = mid @ (e2, k2) # post"
    and "\<forall>(x, k)\<in>set mid. te_date (pe_row x) \<noteq> te_date (pe_row e2)"
    and "m (te_date (pe_row e2)) = Some t"
    and "\<not> usesCreatedAt tza e2"
  shows "k_begin k2 = t"
  using assms
proof (induction mid arbitrary: xs m)
  case Nil
  then obtain xs' where "xs = e2 # xs'" "k2 = fst (transformEntry tza e2 m)"
    by (cases xs) auto
  with Nil.prems show ?case by (simp add: transformEntry_chained)
next
  case (Cons p mid)
  from Cons.prems(1) obtain x xs' where xs: "xs = x # xs'" "p = (x, fst (transformEntry tza x m))"
    "derive tza xs' (snd (transformEntry tza x m)) = mid @ (e2, k2) # post"
    by (cases xs) auto
  from Cons.prems(2) xs(2) have "te_date (pe_row x) \<noteq> te_date (pe_row e2)" by auto
  with Cons.prems(3) have "snd (transformEntry tza x m) (te_date (pe_row e2)) = Some t"
    by (simp add: transformEntry_map)
  from Cons.IH [OF xs(3) _ this Cons.prems(4)] Cons.prems(2) show ?case by simp
qed

lemma derive_chain_later:
  assumes "derive tza xs m = mid @ (e2, k2) # post"
    and "\<forall>(x, k)\<in>set (mid @ [(e2, k2)]). te_date (pe_row x) = te_date (pe_row e2) \<longrightarrow>
           \<not> usesCreatedAt tza x \<and> 0 \<le> roundedMinutes (te_hours (pe_row x))"
    and "m (te_date (pe_row e2)) = Some t"
  shows "t \<le> k_begin k2"
  using assms
proof (induction mid arbitrary: xs m t)
  case Nil
  then obtain xs' where "xs = e2 # xs'" "k2 = fst (transformEntry tza e2 m)"
    by (cases xs) auto
  with Nil.prems show ?case by (simp add: transformEntry_chained)
next
  case (Cons p mid)
  from Cons.prems(1) obtain x xs' where xs: "xs = x # xs'" "p = (x, fst (transformEntry tza x m))"
    "derive tza xs' (snd (transformEntry tza x m)) = mid @ (e2, k2) # post"
    by (cases xs) auto
  let ?k = "fst (transformEntry tza x m)" and ?m = "snd (transformEntry tza x m)"
  from Cons.prems(2) have rest: "\<forall>(x, k)\<in>set (mid @ [(e2, k2)]). te_date (pe_row x) = te_date (pe_row e2) \<longrightarrow>
           \<not> usesCreatedAt tza x \<and> 0 \<le> roundedMinutes (te_hours (pe_row x))"
    by auto
  show ?case
  proof (cases "te_date (pe_row x) = te_date (pe_row e2)")
    case True
    with Cons.prems(2) xs(2) have c: "\<not> usesCreatedAt tza x" "0 \<le> roundedMinutes (te_hours (pe_row x))"
      by auto
    from c(1) Cons.prems(3) True have b: "k_begin ?k = t" by (simp add: transformEntry_chained)
    from c(2) have "0 \<le> roundedMinutes (te_hours (pe_row x)) * msPerMinute"
      by (simp add: msPerMinute_def)
    with b transformEntry_end [of tza x m] have e: "t \<le> k_end ?k" by simp
    from True have "?m (te_date (pe_row e2)) = Some (k_end ?k)" by (simp add: transformEntry_map)
    from Cons.IH [OF xs(3) rest this] e show ?thesis by simp
  next
    case False
    with Cons.prems(3) have "?m (te_date (pe_row e2)) = Some t" by (simp add: transformEntry_map)
    from Cons.IH [OF xs(3) rest this] show ?thesis .
  qed
qed

lemma derive_split:
  assumes "derive tza xs m = pre @ (e1, k1) # rest"
  obtains xs' m' where "derive tza xs' m' = rest" "m' (te_date (pe_row e1)) = Some (k_end k1)"
  using assms
proof (induction pre arbitrary: xs m thesis)
  case Nil
  then obtain xs' where xs: "xs = e1 # xs'" "k1 = fst (transformEntry tza e1 m)"
    "derive tza xs' (snd (transformEntry tza e1 m)) = rest"
    by (cases xs) auto
  have "snd (transformEntry tza e1 m) (te_date (pe_row e1)) = Some (k_end k1)"
    by (simp add: transformEntry_map xs(2))
  with xs(3) show ?case by (rule Nil.prems(1))
next
  case (Cons p pre)
  from Cons.prems(2) obtain x xs' where "xs = x # xs'"
    "derive tza xs' (snd (transformEntry tza x m)) = pre @ (e1, k1) # rest"
    by (cases xs) auto
  from Cons.IH [OF _ this(2)] Cons.prems(1) show ?case by blast
qed

subsection \<open>The rows and the map during the loop\<close>

lemma kept_same: "list_all2 (kept H) rows rows"
  by (simp add: kept_def list_all2_refl)

lemma kept_trans:
  assumes "list_all2 (kept H) xs ys" "list_all2 (kept H) ys zs"
  shows "list_all2 (kept H) xs zs"
  using assms by (rule list_all2_trans [rotated]) (auto simp: kept_def)

lemma markAsImported_kept:
  assumes "markAsImported fails h k st = Inr st'" "h \<in> H"
  shows "list_all2 (kept H) (time_entries st) (time_entries st')"
  unfolding markAsImported_rows(1) [OF assms(1)] list_all2_map2
  by (rule list_all2_refl) (use assms(2) in \<open>auto simp: kept_def\<close>)

lemma importStep_kept:
  assumes "mapped e \<longrightarrow> te_harvest_id (pe_row e) \<in> H"
  shows "list_all2 (kept H) (time_entries (is_store s)) (time_entries (is_store (importStep fails api tza e s)))"
proof (cases "mapped e")
  case True
  obtain k m where t: "transformEntry tza e (dateEndTimeMap s) = (k, m)"
    by (cases "transformEntry tza e (dateEndTimeMap s)")
  from importStep_mapped(3) [OF True t, where fails = fails and api = api]
  show ?thesis
  proof (elim disjE exE conjE)
    assume "is_store (importStep fails api tza e s) = is_store s"
    then show ?thesis by (simp add: kept_same)
  next
    fix kid st'
    assume "markAsImported fails (te_harvest_id (pe_row e)) kid (is_store s) = Inr st'"
      "is_store (importStep fails api tza e s) = st'"
    with markAsImported_kept [of fails "te_harvest_id (pe_row e)" kid "is_store s" st' H] assms True
    show ?thesis by simp
  qed
next
  case False
  then show ?thesis by (simp add: importStep_unmapped kept_same)
qed

lemma importLoop_kept:
  assumes "\<forall>e\<in>set es. mapped e \<longrightarrow> te_harvest_id (pe_row e) \<in> H"
  shows "list_all2 (kept H) (time_entries (is_store s)) (time_entries (is_store (importLoop fails api tza es s)))"
  using assms
proof (induction es arbitrary: s)
  case Nil
  show ?case by (simp add: kept_same)
next
  case (Cons e es)
  from Cons.prems have e: "mapped e \<longrightarrow> te_harvest_id (pe_row e) \<in> H"
    and es: "\<forall>e\<in>set es. mapped e \<longrightarrow> te_harvest_id (pe_row e) \<in> H"
    by simp_all
  from kept_trans [OF importStep_kept [OF e] Cons.IH [OF es]] show ?case by simp
qed


text \<open>
  C8. The calls of \<^verbatim>\<open>createTimesheet\<close> of a run are made for the pending entries that have
  both ids, in the order of their dates, and for no other: an entry that lacks an id is
  not submitted. The two counters add up to the number of entries that have both ids. A row
  whose \<^verbatim>\<open>harvest_id\<close> is not that of a pending entry with both ids is after the run as
  it was before.
\<close>

theorem unmapped_entries_are_skipped:
  assumes "importTimeEntries fails api tza st = Inr s" "getAllPendingEntries fails st = Inr entries"
  shows "map fst (requests s) = filter mapped (sort_key (\<lambda>e. te_date (pe_row e)) entries) \<and>
         (\<forall>e\<in>set entries. \<not> mapped e \<longrightarrow> e \<notin> fst ` set (requests s)) \<and>
         imported s + failed s = length (filter mapped entries) \<and>
         length (time_entries (is_store s)) = length (time_entries st) \<and>
         (\<forall>i<length (time_entries st).
            te_harvest_id (time_entries st ! i) \<notin> (te_harvest_id \<circ> pe_row) ` set (filter mapped entries)
            \<longrightarrow> time_entries (is_store s) ! i = time_entries st ! i)"
proof -
  let ?sorted = "sort_key (\<lambda>e. te_date (pe_row e)) entries"
  let ?H = "(te_harvest_id \<circ> pe_row) ` set (filter mapped entries)"
  from assms have s: "s = importLoop fails api tza ?sorted (initialState st)"
    by (elim importTimeEntries_run) simp
  have req: "map fst (requests s) = filter mapped ?sorted"
    unfolding s importLoop_entries by (simp add: initialState_def)
  then have "fst ` set (requests s) = set (filter mapped entries)"
    by (metis filter_sort set_map set_sort)
  then have skip: "\<forall>e\<in>set entries. \<not> mapped e \<longrightarrow> e \<notin> fst ` set (requests s)"
    by simp
  have "length (filter mapped ?sorted) = length (filter mapped entries)"
    by (simp add: filter_sort)
  with importLoop_counts [of fails api tza ?sorted "initialState st"]
  have cnt: "imported s + failed s = length (filter mapped entries)"
    by (simp add: s initialState_def)
  have "\<forall>e\<in>set ?sorted. mapped e \<longrightarrow> te_harvest_id (pe_row e) \<in> ?H"
    by auto
  from importLoop_kept [OF this, of "initialState st" fails api tza]
  have k: "list_all2 (kept ?H) (time_entries st) (time_entries (is_store s))"
    by (simp add: s initialState_def)
  then have len: "length (time_entries (is_store s)) = length (time_entries st)"
    by (simp add: list_all2_lengthD)
  have rows: "time_entries (is_store s) ! i = time_entries st ! i"
    if "i < length (time_entries st)" "te_harvest_id (time_entries st ! i) \<notin> ?H" for i
    using list_all2_nthD [OF k that(1)] that(2) by (simp add: kept_def)
  from req skip cnt len rows show ?thesis by blast
qed

theorem unmapped_entries_are_skipped_witness:
  "getAllPendingEntries no_fault store_chain
     = Inr [pending row204, pending row201, pending row202, unmapped row203] \<and>
   \<not> mapped (unmapped row203) \<and>
   (\<exists>s. importTimeEntries no_fault api_up 0 store_chain = Inr s \<and>
        map fst (requests s) = [pending row201, pending row202, pending row204] \<and>
        unmapped row203 \<notin> fst ` set (requests s) \<and>
        imported s + failed s = 3 \<and>
        length (time_entries (is_store s)) = 4 \<and>
        time_entries (is_store s) ! 3 = time_entries store_chain ! 3)"
proof -
  from import_chain_requests obtain s where
    s: "importTimeEntries no_fault api_up 0 store_chain = Inr s"
    by auto
  have m: "filter mapped [pending row204, pending row201, pending row202, unmapped row203]
             = [pending row204, pending row201, pending row202]"
    "\<not> mapped (unmapped row203)"
    by (simp_all add: mapped_def pending_def unmapped_def)
  have i: "(3::nat) < length (time_entries store_chain)"
    "te_harvest_id (time_entries store_chain ! 3) \<notin>
       (te_harvest_id \<circ> pe_row) ` set [pending row204, pending row201, pending row202]"
    by (simp_all add: no_fault_def api_up_def row101_def row102_def task_dev_def task_review_def
      task_review2_def act_review_def act_other_def act_dev_def store0_def row201_def row202_def
      row203_def row204_def store_chain_def pending_def unmapped_def setMapping_def)
  have len: "length (time_entries store_chain) = 4" by (simp add: store_chain_def)
  from unmapped_entries_are_skipped [OF s pending_chain] s m i len sorted_chain pending_chain
  show ?thesis
    by (auto simp: mapped_def pending_def unmapped_def)
qed



text \<open>
  C2. Of two entries of one date submitted in a run, the later begins exactly at the end
  derived for the earlier when it does not take its \<^verbatim>\<open>created_at\<close> and no entry of the
  date was submitted between them. When no submitted entry of the date takes its
  \<^verbatim>\<open>created_at\<close> and none has a negative duration, each ends before the later ones
  begin. At or east of Greenwich an entry takes its \<^verbatim>\<open>created_at\<close> exactly when that
  instant falls on the entry's date.
\<close>

theorem chained_entries_do_not_overlap:
  assumes "importTimeEntries fails api tza st = Inr s"
    and "requests s = pre @ (e1, k1) # mid @ (e2, k2) # post"
    and "te_date (pe_row e2) = te_date (pe_row e1)"
  shows "(\<not> usesCreatedAt tza e2 \<and> (\<forall>(x, k)\<in>set mid. te_date (pe_row x) \<noteq> te_date (pe_row e1))
            \<longrightarrow> k_begin k2 = k_end k1) \<and>
         ((\<forall>(x, k)\<in>set (requests s). te_date (pe_row x) = te_date (pe_row e1) \<longrightarrow>
              \<not> usesCreatedAt tza x \<and> 0 \<le> roundedMinutes (te_hours (pe_row x)))
            \<longrightarrow> k_end k1 \<le> k_begin k2) \<and>
         (0 \<le> tza \<and> tza < msPerDay \<longrightarrow> (usesCreatedAt tza e2 \<longleftrightarrow> createdOnDate tza e2))"
proof (intro conjI impI)
  from assms(1) obtain es where "requests s = derive tza es Map.empty"
    by (rule importTimeEntries_derive)
  with assms(2) have "derive tza es Map.empty = pre @ (e1, k1) # mid @ (e2, k2) # post" by simp
  then obtain xs' m' where d: "derive tza xs' m' = mid @ (e2, k2) # post"
    "m' (te_date (pe_row e1)) = Some (k_end k1)"
    by (rule derive_split)
  {
    assume "\<not> usesCreatedAt tza e2 \<and> (\<forall>(x, k)\<in>set mid. te_date (pe_row x) \<noteq> te_date (pe_row e1))"
    with derive_chain_next [OF d(1), of "k_end k1"] d(2) assms(3)
    show "k_begin k2 = k_end k1" by simp
  }
  {
    assume "\<forall>(x, k)\<in>set (requests s). te_date (pe_row x) = te_date (pe_row e1) \<longrightarrow>
              \<not> usesCreatedAt tza x \<and> 0 \<le> roundedMinutes (te_hours (pe_row x))"
    then have "\<forall>(x, k)\<in>set (mid @ [(e2, k2)]). te_date (pe_row x) = te_date (pe_row e2) \<longrightarrow>
              \<not> usesCreatedAt tza x \<and> 0 \<le> roundedMinutes (te_hours (pe_row x))"
      unfolding assms(2,3) by auto
    from derive_chain_later [OF d(1) this, of "k_end k1"] d(2) assms(3)
    show "k_end k1 \<le> k_begin k2" by simp
  }
  {
    assume "0 \<le> tza \<and> tza < msPerDay"
    then show "usesCreatedAt tza e2 \<longleftrightarrow> createdOnDate tza e2"
      by (simp add: usesCreatedAt_east)
  }
qed

text \<open>
  Two entries of one date that both take their \<^verbatim>\<open>created_at\<close>, 10:00 for two hours and
  11:00 for one hour, are submitted with intervals that overlap.
\<close>

theorem chained_entries_do_not_overlap_counterexample:
  "map_sum id requests (importTimeEntries no_fault api_up 0 store_overlap)
     = Inr [(pending row301, k301), (pending row302, k302)] \<and>
   te_date (pe_row (pending row301)) = te_date (pe_row (pending row302)) \<and>
   k_begin k301 < k_end k301 \<and> k_begin k302 < k_end k302 \<and>
   k_begin k301 < k_end k302 \<and> k_begin k302 < k_end k301"
  by (simp add: import_evals time_evals no_fault_def api_up_def row101_def row102_def task_dev_def
      task_review_def task_review2_def act_review_def act_other_def act_dev_def store0_def
      row301_def row302_def store_overlap_def pending_def kimai_def k301_def k302_def
      setMapping_def  )

theorem chained_entries_do_not_overlap_witness:
  "\<exists>s. importTimeEntries no_fault api_up 0 store_chain = Inr s \<and>
       requests s = [] @ (pending row201, k201) # [] @ (pending row202, k202) # [(pending row204,
      k204)] \<and>
       te_date (pe_row (pending row202)) = te_date (pe_row (pending row201)) \<and>
       \<not> usesCreatedAt 0 (pending row201) \<and> \<not> usesCreatedAt 0 (pending row202) \<and>
       0 \<le> roundedMinutes (te_hours (pe_row (pending row201))) \<and>
       0 \<le> roundedMinutes (te_hours (pe_row (pending row202))) \<and>
       te_date (pe_row (pending row204)) \<noteq> te_date (pe_row (pending row201)) \<and>
       (0::int) \<le> 0 \<and> 0 < msPerDay \<and>
       k_begin k202 = k_end k201 \<and> k_end k201 \<le> k_begin k202 \<and>
       \<not> createdOnDate 0 (pending row202)"
proof -
  from import_chain_requests obtain s where
    s: "importTimeEntries no_fault api_up 0 store_chain = Inr s"
       "requests s = [] @ (pending row201, k201) # [] @ (pending row202, k202) # [(pending row204,
      k204)]"
    by auto
  have d: "te_date (pe_row (pending row202)) = te_date (pe_row (pending row201))"
    "te_date (pe_row (pending row204)) \<noteq> te_date (pe_row (pending row201))"
    by (simp_all add: no_fault_def api_up_def row101_def row102_def task_dev_def task_review_def
      task_review2_def act_review_def act_other_def act_dev_def store0_def row201_def row202_def
      row203_def row204_def store_chain_def pending_def kimai_def k201_def k202_def k204_def
      setMapping_def)
  have u: "\<not> usesCreatedAt 0 (pending row201)" "\<not> usesCreatedAt 0 (pending row202)"
    by (simp_all add: usesCreatedAt_def no_fault_def api_up_def row101_def row102_def task_dev_def
      task_review_def task_review2_def act_review_def act_other_def act_dev_def store0_def
      row201_def row202_def row203_def row204_def store_chain_def pending_def kimai_def k201_def
      k202_def k204_def setMapping_def time_evals)
  have r: "0 \<le> roundedMinutes (te_hours (pe_row (pending row201)))"
    "0 \<le> roundedMinutes (te_hours (pe_row (pending row202)))"
    by (simp_all add: no_fault_def api_up_def row101_def row102_def task_dev_def task_review_def
      task_review2_def act_review_def act_other_def act_dev_def store0_def row201_def row202_def
      row203_def row204_def store_chain_def pending_def kimai_def k201_def k202_def k204_def
      setMapping_def roundedMinutes_def Math_round_def)
  have z: "(0::int) \<le> 0" "0 < msPerDay" by (simp_all add: msPerDay_def)
  from chained_entries_do_not_overlap [OF s d(1)] s d u r z show ?thesis
    by auto
qed

end
